theory Spec2Isabelle
  imports Complex_Main "HOL-Library.Signed_Division" "HOL-Library.Word"
begin

section \<open>Go values used by the heatmap generator\<close>

text \<open>
  The program is a single Go file. Its \<open>int\<close> is the 64-bit two's complement integer of
  the usual targets; it is modelled as a HOL \<open>int\<close> with the wrap-around written out by
  \<open>int64\<close>. Go's \<open>/\<close> on integers truncates towards zero, which is \<open>sdiv\<close>.
\<close>

definition int64 :: "int \<Rightarrow> int" where
  "int64 k = (k + 9223372036854775808) mod 18446744073709551616 - 9223372036854775808"

definition add64 :: "int \<Rightarrow> int \<Rightarrow> int" where
  "add64 a b = int64 (a + b)"

definition sub64 :: "int \<Rightarrow> int \<Rightarrow> int" where
  "sub64 a b = int64 (a - b)"

definition mul64 :: "int \<Rightarrow> int \<Rightarrow> int" where
  "mul64 a b = int64 (a * b)"

definition quo64 :: "int \<Rightarrow> int \<Rightarrow> int" where
  \<comment> \<open>the divisor is never 0 or -1 in this program, so neither the panic nor the
      overflow of Go's division is reachable\<close>
  "quo64 a b = a sdiv b"

definition TileSize :: int where
  "TileSize = 1000"

subsection \<open>strings.Split, strings.Contains, strings.HasPrefix\<close>

text \<open>\<open>strings.Split(s, sep)\<close> for a one-byte separator: the pieces between the
  separators, a single empty piece for the empty string.\<close>

fun Split :: "string \<Rightarrow> char \<Rightarrow> string list" where
  "Split [] c = [[]]"
| "Split (x # xs) c =
     (if x = c then [] # Split xs c
      else (case Split xs c of [] \<Rightarrow> [[x]] | t # ts \<Rightarrow> (x # t) # ts))"

definition Contains :: "string \<Rightarrow> char \<Rightarrow> bool" where
  "Contains s c = (c \<in> set s)"

definition HasPrefix :: "string \<Rightarrow> string \<Rightarrow> bool" where
  "HasPrefix s p = (take (length p) s = p)"

subsection \<open>strconv.Atoi\<close>

datatype error =
    ErrSyntax string   \<comment> \<open>strconv.NumError with ErrSyntax, for the given text\<close>
  | ErrRange string    \<comment> \<open>strconv.NumError with ErrRange, for the given text\<close>
  | Errorf string      \<comment> \<open>an error made by fmt.Errorf, with its message\<close>

definition isDigit :: "char \<Rightarrow> bool" where
  "isDigit c = (48 \<le> (of_char c :: int) \<and> (of_char c :: int) \<le> 57)"

fun decimal :: "int \<Rightarrow> string \<Rightarrow> int" where
  "decimal n [] = n"
| "decimal n (c # cs) = decimal (n * 10 + ((of_char c :: int) - 48)) cs"

text \<open>
  \<open>strconv.Atoi\<close> returns a value and an error: an optional sign, then one or more
  decimal digits. A syntax error gives 0; a number outside the 64-bit range gives the
  nearest bound together with a range error.
\<close>

definition Atoi :: "string \<Rightarrow> int \<times> error option" where
  "Atoi s =
     (let neg = (s \<noteq> [] \<and> hd s = CHR ''-'');
          body = (if s \<noteq> [] \<and> (hd s = CHR ''-'' \<or> hd s = CHR ''+'') then tl s else s)
      in if body = [] \<or> \<not> list_all isDigit body then (0, Some (ErrSyntax s))
         else let n = decimal 0 body
              in if \<not> neg \<and> 9223372036854775808 \<le> n
                   then (9223372036854775807, Some (ErrRange s))
                 else if neg \<and> 9223372036854775808 < n
                   then (- 9223372036854775808, Some (ErrRange s))
                 else (if neg then - n else n, None))"

section \<open>Coordinate translation\<close>

record Config =
  Zoom :: int
  Fullsize :: string
  TileRange :: string
  SingleTile :: string
  Versions :: string
  OutputFile :: string
  CacheDir :: string
  AutoFetch :: bool

record Region =
  startX :: int
  startY :: int
  width :: int
  height :: int

text \<open>The loop \<open>for i, p := range parts { vals[i], err = strconv.Atoi(p); if err != nil
  { return } }\<close>: the values in order, or the first error.\<close>

fun atoiAll :: "string list \<Rightarrow> error + int list" where
  "atoiAll [] = Inr []"
| "atoiAll (p # ps) =
     (case Atoi p of
        (_, Some e) \<Rightarrow> Inl e
      | (v, None) \<Rightarrow> (case atoiAll ps of Inl e \<Rightarrow> Inl e | Inr vs \<Rightarrow> Inr (v # vs)))"

definition parseFullsize :: "string \<Rightarrow> error + Region" where
  "parseFullsize fs =
     (let parts = Split fs CHR ''-'' in
      if length parts = 6 then
        (case atoiAll parts of
           Inl e \<Rightarrow> Inl e
         | Inr vals \<Rightarrow>
             Inr \<lparr> startX = add64 (mul64 (vals ! 0) TileSize) (vals ! 2),
                   startY = add64 (mul64 (vals ! 1) TileSize) (vals ! 3),
                   width = vals ! 4,
                   height = vals ! 5 \<rparr>)
      else if length parts = 8 then
        (case atoiAll parts of
           Inl e \<Rightarrow> Inl e
         | Inr vals \<Rightarrow>
             (let x1 = add64 (mul64 (vals ! 0) TileSize) (vals ! 2);
                  y1 = add64 (mul64 (vals ! 1) TileSize) (vals ! 3);
                  x2 = add64 (mul64 (vals ! 4) TileSize) (vals ! 6);
                  y2 = add64 (mul64 (vals ! 5) TileSize) (vals ! 7);
                  (x1, x2) = (if x1 > x2 then (x2, x1) else (x1, x2));
                  (y1, y2) = (if y1 > y2 then (y2, y1) else (y1, y2))
              in Inr \<lparr> startX = x1, startY = y1,
                       width = sub64 x2 x1, height = sub64 y2 y1 \<rparr>))
      else Inl (Errorf (''invalid fullsize format: '' @ fs)))"

text \<open>\<open>parseTileRange\<close> returns \<open>(minTX, minTY, maxTX, maxTY)\<close>. The errors of
  \<open>strconv.Atoi\<close> are discarded there (\<open>x1, _ := strconv.Atoi(p1[0])\<close>), so only the value
  is used.\<close>

definition parseTileRange :: "string \<Rightarrow> error + (int \<times> int \<times> int \<times> int)" where
  "parseTileRange tr =
     (let parts = Split tr CHR ''_'' in
      if length parts \<noteq> 2 then Inl (Errorf (''invalid tile range format: '' @ tr))
      else
        let p1 = Split (parts ! 0) CHR ''-'';
            p2 = Split (parts ! 1) CHR ''-''
        in if length p1 \<noteq> 2 \<or> length p2 \<noteq> 2
           then Inl (Errorf (''invalid tile range points: '' @ tr))
           else
             let x1 = fst (Atoi (p1 ! 0));
                 y1 = fst (Atoi (p1 ! 1));
                 x2 = fst (Atoi (p2 ! 0));
                 y2 = fst (Atoi (p2 ! 1));
                 (x1, x2) = (if x1 > x2 then (x2, x1) else (x1, x2));
                 (y1, y2) = (if y1 > y2 then (y2, y1) else (y1, y2))
             in Inr (x1, y1, x2, y2))"

text \<open>
  The region selection of \<open>main\<close>: the first non-empty of the three flags decides, and
  with none given the region is one fixed tile. \<open>log.Fatalf\<close> ends the program; it is
  the \<open>Inl\<close> result, carrying what is printed.
\<close>

datatype fatal =
    ParseError error            \<comment> \<open>log.Fatalf("Parse error: %v", err)\<close>
  | InvalidSingleTile string    \<comment> \<open>log.Fatalf("Invalid single tile format: %s", s)\<close>

definition translate :: "Config \<Rightarrow> fatal + Region" where
  "translate config =
     (if Fullsize config \<noteq> [] then
        (case parseFullsize (Fullsize config) of
           Inl e \<Rightarrow> Inl (ParseError e)
         | Inr r \<Rightarrow> Inr r)
      else if TileRange config \<noteq> [] then
        (case parseTileRange (TileRange config) of
           Inl e \<Rightarrow> Inl (ParseError e)
         | Inr (minTX, minTY, maxTX, maxTY) \<Rightarrow>
             Inr \<lparr> startX = mul64 minTX TileSize,
                   startY = mul64 minTY TileSize,
                   width = mul64 (add64 (sub64 maxTX minTX) 1) TileSize,
                   height = mul64 (add64 (sub64 maxTY minTY) 1) TileSize \<rparr>)
      else if SingleTile config \<noteq> [] then
        (let parts = Split (SingleTile config) CHR ''-'' in
         if length parts \<noteq> 2 then Inl (InvalidSingleTile (SingleTile config))
         else
           let tx = fst (Atoi (parts ! 0));
               ty = fst (Atoi (parts ! 1))
           in Inr \<lparr> startX = mul64 tx TileSize, startY = mul64 ty TileSize,
                    width = TileSize, height = TileSize \<rparr>)
      else Inr \<lparr> startX = mul64 1818 TileSize, startY = mul64 806 TileSize,
                 width = 1000, height = 1000 \<rparr>)"

record TileRangeIdx =
  minTileX :: int
  minTileY :: int
  maxTileX :: int
  maxTileY :: int

definition tileRange :: "Region \<Rightarrow> TileRangeIdx" where
  "tileRange r =
     \<lparr> minTileX = quo64 (startX r) TileSize,
       minTileY = quo64 (startY r) TileSize,
       maxTileX = quo64 (sub64 (add64 (startX r) (width r)) 1) TileSize,
       maxTileY = quo64 (sub64 (add64 (startY r) (height r)) 1) TileSize \<rparr>"

text \<open>The flag defaults of \<open>main\<close>: the configuration when no flag is given.\<close>

definition flagDefaults :: Config where
  "flagDefaults = \<lparr> Zoom = 11, Fullsize = [], TileRange = [], SingleTile = [],
     Versions = ''versions.txt'', OutputFile = ''heatmap.png'', CacheDir = ''tile_cache'',
     AutoFetch = True \<rparr>"

text \<open>What a fallible call produced, if anything: the error, if any, is dropped.\<close>

definition produced :: "'e + 'a \<Rightarrow> 'a option" where
  "produced res = (case res of Inl _ \<Rightarrow> None | Inr r \<Rightarrow> Some r)"

text \<open>
  The tile range as the specification words it: mathematical floor division of the origin
  and of the last pixel by the tile size (\<open>div\<close> on \<open>int\<close> rounds down).
\<close>

definition floorTileRange :: "Region \<Rightarrow> TileRangeIdx" where
  "floorTileRange r =
     \<lparr> minTileX = startX r div TileSize,
       minTileY = startY r div TileSize,
       maxTileX = (startX r + width r - 1) div TileSize,
       maxTileY = (startY r + height r - 1) div TileSize \<rparr>"

text \<open>The Region invariant of the specification: positive extent and a non-empty
  tile range.\<close>

definition regionInvariant :: "Region \<Rightarrow> bool" where
  "regionInvariant r =
     (0 < width r \<and> 0 < height r
      \<and> minTileX (tileRange r) \<le> maxTileX (tileRange r)
      \<and> minTileY (tileRange r) \<le> maxTileY (tileRange r))"

text \<open>The numeric fields of the region string that \<open>main\<close> selects, cut as the
  parser of that encoding cuts them.\<close>

definition fieldsOf :: "Config \<Rightarrow> string list" where
  "fieldsOf config =
     (if Fullsize config \<noteq> [] then Split (Fullsize config) CHR ''-''
      else if TileRange config \<noteq> []
        then concat (map (\<lambda>p. Split p CHR ''-'') (Split (TileRange config) CHR ''_''))
      else Split (SingleTile config) CHR ''-'')"

section \<open>Images\<close>

text \<open>
  An \<open>image.Image\<close> is modelled by its bounds and by the colour at each point, a colour
  being the four values that its method \<open>RGBA()\<close> returns (alpha-premultiplied, each in
  \<open>[0, 0xffff]\<close>). \<open>color.RGBA\<close> is the struct of four bytes. The coordinate
  arithmetic inside the image library is modelled on the integers: the bounds of a
  decoded tile and of a canvas are far from the 64-bit limits.
\<close>

type_synonym Color = "32 word \<times> 32 word \<times> 32 word \<times> 32 word"

datatype RGBA = RGBA "8 word" "8 word" "8 word" "8 word"

record Rectangle =
  MinX :: int
  MinY :: int
  MaxX :: int
  MaxY :: int

record Image =
  Bounds :: Rectangle
  Pix :: "int \<Rightarrow> int \<Rightarrow> Color"

definition Rect :: "int \<Rightarrow> int \<Rightarrow> int \<Rightarrow> int \<Rightarrow> Rectangle" where
  \<comment> \<open>image.Rect: the corners are put in order\<close>
  "Rect x0 y0 x1 y1 =
     (let (x0, x1) = (if x0 > x1 then (x1, x0) else (x0, x1));
          (y0, y1) = (if y0 > y1 then (y1, y0) else (y0, y1))
      in \<lparr> MinX = x0, MinY = y0, MaxX = x1, MaxY = y1 \<rparr>)"

definition ZR :: Rectangle where
  "ZR = \<lparr> MinX = 0, MinY = 0, MaxX = 0, MaxY = 0 \<rparr>"

definition Empty :: "Rectangle \<Rightarrow> bool" where
  "Empty r = (MinX r \<ge> MaxX r \<or> MinY r \<ge> MaxY r)"

definition Dx :: "Rectangle \<Rightarrow> int" where
  "Dx r = MaxX r - MinX r"

definition Dy :: "Rectangle \<Rightarrow> int" where
  "Dy r = MaxY r - MinY r"

definition In :: "int \<Rightarrow> int \<Rightarrow> Rectangle \<Rightarrow> bool" where
  "In x y r = (MinX r \<le> x \<and> x < MaxX r \<and> MinY r \<le> y \<and> y < MaxY r)"

definition Intersect :: "Rectangle \<Rightarrow> Rectangle \<Rightarrow> Rectangle" where
  "Intersect r s =
     (let r = (if MinX r < MinX s then r \<lparr> MinX := MinX s \<rparr> else r);
          r = (if MinY r < MinY s then r \<lparr> MinY := MinY s \<rparr> else r);
          r = (if MaxX r > MaxX s then r \<lparr> MaxX := MaxX s \<rparr> else r);
          r = (if MaxY r > MaxY s then r \<lparr> MaxY := MaxY s \<rparr> else r)
      in if Empty r then ZR else r)"

definition At :: "Image \<Rightarrow> int \<Rightarrow> int \<Rightarrow> Color" where
  \<comment> \<open>the zero colour outside the bounds\<close>
  "At img x y = (if In x y (Bounds img) then Pix img x y else (0, 0, 0, 0))"

definition NewRGBA :: "Rectangle \<Rightarrow> Image" where
  "NewRGBA r = \<lparr> Bounds = r, Pix = (\<lambda>x y. (0, 0, 0, 0)) \<rparr>"

text \<open>A colour stored in an \<open>*image.RGBA\<close> keeps the high byte of each channel;
  read back, the byte \<open>c\<close> is the value \<open>c | c << 8\<close>.\<close>

definition storeRGBA :: "Color \<Rightarrow> Color" where
  "storeRGBA c =
     (case c of (r, g, b, a) \<Rightarrow>
        (drop_bit 8 r * 257, drop_bit 8 g * 257, drop_bit 8 b * 257, drop_bit 8 a * 257))"

definition colorOf :: "RGBA \<Rightarrow> Color" where
  \<comment> \<open>the method RGBA() of color.RGBA\<close>
  "colorOf c =
     (case c of RGBA r g b a \<Rightarrow> (ucast r * 257, ucast g * 257, ucast b * 257, ucast a * 257))"

datatype Op = Over | Src

section \<open>The world outside the program\<close>

text \<open>
  The cache directory and the requests sent so far are the state of a run. What the
  standard library and the remote server do is a parameter: the reply to a request (given
  the requests before it), the PNG decoder and encoder, whether the cache directory and a
  cache file can be created, \<open>filepath.Join\<close>, and the arithmetic of \<open>draw.Over\<close> on
  one pixel (source colour, then destination colour).
\<close>

datatype cached = Unreadable | Bytes "8 word list"

datatype reply = TransportError error | Response int "8 word list"

record world =
  files :: "string \<Rightarrow> cached option"
  requests :: "string list"

record env =
  Get :: "string list \<Rightarrow> string \<Rightarrow> reply"
  Decode :: "8 word list \<Rightarrow> string + Image"
  Encode :: "Image \<Rightarrow> 8 word list"
  MkdirAll :: "string \<Rightarrow> bool"
  Create :: "string \<Rightarrow> bool"
  Join :: "string \<Rightarrow> string \<Rightarrow> string"
  OverPixel :: "Color \<Rightarrow> Color \<Rightarrow> Color"

text \<open>
  \<open>draw.Draw(dst, r, src, sp, op)\<close> into an \<open>*image.RGBA\<close>: the rectangle is clipped
  to the destination and to the source placed with \<open>sp\<close> at \<open>r.Min\<close>; inside it each
  destination pixel is replaced by the source pixel (\<open>Src\<close>) or blended with it
  (\<open>Over\<close>).
\<close>

definition Draw :: "env \<Rightarrow> Image \<Rightarrow> Rectangle \<Rightarrow> Image \<Rightarrow> int \<times> int \<Rightarrow> Op \<Rightarrow> Image" where
  "Draw e dst r src sp op =
     (let ox = MinX r; oy = MinY r;
          r1 = Intersect r (Bounds dst);
          sb = Bounds src;
          dx = ox - fst sp; dy = oy - snd sp;
          r2 = Intersect r1 \<lparr> MinX = MinX sb + dx, MinY = MinY sb + dy,
                               MaxX = MaxX sb + dx, MaxY = MaxY sb + dy \<rparr>
      in if Empty r2 then dst
         else dst \<lparr> Pix := (\<lambda>x y.
                if In x y r2 then
                  (let s = Pix src (x - ox + fst sp) (y - oy + snd sp)
                   in case op of Src \<Rightarrow> storeRGBA s | Over \<Rightarrow> OverPixel e s (Pix dst x y))
                else Pix dst x y) \<rparr>)"

section \<open>Tile cache and fetcher\<close>

function digitsOf :: "int \<Rightarrow> string" where
  "digitsOf n = (if n < 10 then [char_of (48 + n)]
                 else digitsOf (n div 10) @ [char_of (48 + n mod 10)])"
  by pat_completeness auto
termination
  by (relation "measure nat") auto

declare digitsOf.simps [simp del]

definition itoa :: "int \<Rightarrow> string" where
  \<comment> \<open>the verb %d\<close>
  "itoa i = (if i < 0 then CHR ''-'' # digitsOf (- i) else digitsOf i)"

definition prefixed :: "string \<Rightarrow> string" where
  "prefixed version = (if \<not> HasPrefix version ''v'' then ''v'' @ version else version)"

definition cachePath :: "env \<Rightarrow> string \<Rightarrow> string \<Rightarrow> int \<Rightarrow> int \<Rightarrow> int \<Rightarrow> string" where
  "cachePath e version cacheDir zoom x y =
     Join e cacheDir (prefixed version @ ''_'' @ itoa zoom @ ''_'' @ itoa x @ ''_'' @ itoa y @ ''.png'')"

definition tileURL :: "string \<Rightarrow> int \<Rightarrow> int \<Rightarrow> int \<Rightarrow> string" where
  "tileURL version zoom x y =
     ''https://wplace.eralyon.net/tiles/'' @ prefixed version @ ''/'' @ itoa zoom @ ''/''
       @ itoa x @ ''/'' @ itoa y @ ''.png''"

text \<open>The cache lookup of \<open>downloadRawTile\<close>: the file exists, opens and decodes.\<close>

definition readCache :: "env \<Rightarrow> world \<Rightarrow> string \<Rightarrow> Image option" where
  "readCache e w path =
     (case files w path of
        None \<Rightarrow> None
      | Some Unreadable \<Rightarrow> None
      | Some (Bytes bs) \<Rightarrow> (case Decode e bs of Inl _ \<Rightarrow> None | Inr img \<Rightarrow> Some img))"

text \<open>The best-effort write of a fetched tile: errors are ignored.\<close>

definition writeCache :: "env \<Rightarrow> world \<Rightarrow> string \<Rightarrow> string \<Rightarrow> Image \<Rightarrow> world" where
  "writeCache e w cacheDir path img =
     (if MkdirAll e cacheDir then
        (if Create e path then w \<lparr> files := (files w)(path \<mapsto> Bytes (Encode e img)) \<rparr> else w)
      else w)"

definition downloadRawTile ::
  "env \<Rightarrow> string \<Rightarrow> string \<Rightarrow> int \<Rightarrow> int \<Rightarrow> int \<Rightarrow> world \<Rightarrow> (error + Image) \<times> world" where
  "downloadRawTile e version cacheDir zoom x y w =
     (let path = cachePath e version cacheDir zoom x y in
      case readCache e w path of
        Some img \<Rightarrow> (Inr img, w)
      | None \<Rightarrow>
          (let url = tileURL version zoom x y;
               resp = Get e (requests w) url;
               w = w \<lparr> requests := requests w @ [url] \<rparr>
           in case resp of
                TransportError err \<Rightarrow> (Inl err, w)
              | Response status body \<Rightarrow>
                  if status \<noteq> 200
                  then (Inl (Errorf (''HTTP '' @ itoa status @ '' for '' @ url)), w)
                  else (case Decode e body of
                          Inl msg \<Rightarrow>
                            (Inl (Errorf (''PNG decode error for '' @ url @ '': '' @ msg)), w)
                        | Inr img \<Rightarrow> (Inr img, writeCache e w cacheDir path img))))"

section \<open>Version resolver\<close>

definition downloadMergedTile ::
  "env \<Rightarrow> string \<Rightarrow> string \<Rightarrow> int \<Rightarrow> int \<Rightarrow> int \<Rightarrow> world \<Rightarrow> (error + Image) \<times> world" where
  "downloadMergedTile e version cacheDir zoom x y w =
     (if \<not> Contains version CHR ''.'' then downloadRawTile e version cacheDir zoom x y w
      else
        let baseVersion = Split version CHR ''.'' ! 0;
            (base, w) = downloadRawTile e baseVersion cacheDir zoom x y w;
            (diff, w) = downloadRawTile e version cacheDir zoom x y w
        in case (base, diff) of
             (Inl err, Inl err2) \<Rightarrow>
               (Inl (Errorf (''failed to download both base and diff for '' @ version)), w)
           | (Inr baseImg, Inl err2) \<Rightarrow> (Inr baseImg, w)
           | (Inl err, Inr diffImg) \<Rightarrow> (Inr diffImg, w)
           | (Inr baseImg, Inr diffImg) \<Rightarrow>
               (let bounds = Bounds baseImg;
                    merged = NewRGBA bounds;
                    merged = Draw e merged bounds baseImg (MinX bounds, MinY bounds) Src;
                    merged = Draw e merged bounds diffImg (MinX bounds, MinY bounds) Over
                in (Inr merged, w)))"

text \<open>
  The resolution policy as the specification words it. The base is the text before the
  first separator. With both layers present the result has the extent of the base; each
  of its pixels is the base pixel, with the diff pixel composited over it where the diff
  has one.
\<close>

definition sourceOver :: "env \<Rightarrow> Image \<Rightarrow> Image \<Rightarrow> Image" where
  "sourceOver e baseImg diffImg =
     \<lparr> Bounds = Bounds baseImg,
       Pix = (\<lambda>x y.
         if In x y (Bounds baseImg) then
           (if In x y (Bounds diffImg)
            then OverPixel e (Pix diffImg x y) (storeRGBA (Pix baseImg x y))
            else storeRGBA (Pix baseImg x y))
         else (0, 0, 0, 0)) \<rparr>"

definition resolve ::
  "env \<Rightarrow> string \<Rightarrow> string \<Rightarrow> int \<Rightarrow> int \<Rightarrow> int \<Rightarrow> world \<Rightarrow> (error + Image) \<times> world" where
  "resolve e version cacheDir zoom x y w =
     (if CHR ''.'' \<notin> set version then downloadRawTile e version cacheDir zoom x y w
      else
        (case downloadRawTile e (takeWhile (\<lambda>c. c \<noteq> CHR ''.'') version) cacheDir zoom x y w of
           (base, w1) \<Rightarrow>
             (case downloadRawTile e version cacheDir zoom x y w1 of
                (diff, w2) \<Rightarrow>
                  (case base of
                     Inl _ \<Rightarrow>
                       (case diff of
                          Inl _ \<Rightarrow>
                            (Inl (Errorf (''failed to download both base and diff for ''
                                            @ version)), w2)
                        | Inr d \<Rightarrow> (Inr d, w2))
                   | Inr b \<Rightarrow>
                       (case diff of
                          Inl _ \<Rightarrow> (Inr b, w2)
                        | Inr d \<Rightarrow> (Inr (sourceOver e b d), w2))))))"

section \<open>An example environment\<close>

text \<open>
  A small environment for concrete runs. A tile file is one byte, decoded as a tile of
  1000 by 1000 opaque grey pixels of that level and encoded back from the pixel at the
  origin. The server answers every request with status 200 and a one-byte body: 0 for the
  first request of a run, then 1 and 0 in turn. Nothing can be written to the cache.
\<close>

definition greyTile :: "8 word \<Rightarrow> Image" where
  "greyTile b = \<lparr> Bounds = Rect 0 0 1000 1000,
                  Pix = (\<lambda>x y. (ucast b * 257, ucast b * 257, ucast b * 257, 65535)) \<rparr>"

definition toyDecode :: "8 word list \<Rightarrow> string + Image" where
  "toyDecode bs = (case bs of [b] \<Rightarrow> Inr (greyTile b) | _ \<Rightarrow> Inl ''not a tile'')"

definition toyEncode :: "Image \<Rightarrow> 8 word list" where
  "toyEncode img = (case Pix img 0 0 of (r, g, b, a) \<Rightarrow> [ucast (drop_bit 8 r)])"

definition toyOver :: "Color \<Rightarrow> Color \<Rightarrow> Color" where
  "toyOver s d = (case s of (r, g, b, a) \<Rightarrow> if a = 65535 then storeRGBA s else d)"

definition flipEnv :: env where
  "flipEnv = \<lparr> Get = (\<lambda>earlier url. Response 200 [of_nat (length earlier mod 2)]),
               Decode = toyDecode, Encode = toyEncode,
               MkdirAll = (\<lambda>dir. False), Create = (\<lambda>path. False),
               Join = (\<lambda>dir name. dir @ ''/'' @ name),
               OverPixel = toyOver \<rparr>"

text \<open>The same with a cache that can be written, and with a server that knows only the
  versions whose URL it is given.\<close>

definition cachingEnv :: "string list \<Rightarrow> env" where
  "cachingEnv known =
     flipEnv \<lparr> Get := (\<lambda>earlier url. if url \<in> set known then Response 200 [7]
                                       else Response 404 []),
               MkdirAll := (\<lambda>dir. True), Create := (\<lambda>path. True) \<rparr>"

definition emptyWorld :: world where
  "emptyWorld = \<lparr> files = (\<lambda>path. None), requests = [] \<rparr>"

section \<open>Canvas compositor\<close>

text \<open>The copy of one resolved tile into the canvas of the version: the part of the tile
  that lies in the target rectangle is drawn, opaque, at its place in the canvas.\<close>

definition blit :: "env \<Rightarrow> Region \<Rightarrow> int \<Rightarrow> int \<Rightarrow> Image \<Rightarrow> Image \<Rightarrow> Image" where
  "blit e reg tx ty img currentCombined =
     (let tileRect = Rect (mul64 tx TileSize) (mul64 ty TileSize)
                          (mul64 (add64 tx 1) TileSize) (mul64 (add64 ty 1) TileSize);
          targetRect = Rect (startX reg) (startY reg)
                            (add64 (startX reg) (width reg)) (add64 (startY reg) (height reg));
          inter = Intersect tileRect targetRect
      in if \<not> Empty inter then
           (let drawX = sub64 (MinX inter) (startX reg);
                drawY = sub64 (MinY inter) (startY reg);
                srcX = sub64 (MinX inter) (mul64 tx TileSize);
                srcY = sub64 (MinY inter) (mul64 ty TileSize)
            in Draw e currentCombined
                 (Rect drawX drawY (add64 drawX (Dx inter)) (add64 drawY (Dy inter)))
                 img (srcX, srcY) Src)
         else currentCombined)"

text \<open>
  The two tile loops of \<open>main\<close>. The inner loop runs over \<open>ty\<close> and stops at the first
  tile that does not resolve (\<open>versionValid = false; break\<close>); the outer loop runs over
  \<open>tx\<close> and stops as soon as the version is invalid. Both return the canvas, the flag
  \<open>versionValid\<close> and the world. The last tile index is a quotient by 1000 of a 64-bit
  value, so \<open>ty++\<close> and \<open>tx++\<close> never wrap.
\<close>

function tileColumn ::
  "env \<Rightarrow> Config \<Rightarrow> string \<Rightarrow> Region \<Rightarrow> int \<Rightarrow> int \<Rightarrow> int \<Rightarrow> Image \<Rightarrow> world
     \<Rightarrow> Image \<times> bool \<times> world" where
  "tileColumn e config v reg tx ty maxY currentCombined w =
     (if ty \<le> maxY then
        (case downloadMergedTile e v (CacheDir config) (Zoom config) tx ty w of
           (Inl err, w') \<Rightarrow> (currentCombined, False, w')
         | (Inr img, w') \<Rightarrow>
             tileColumn e config v reg tx (ty + 1) maxY (blit e reg tx ty img currentCombined) w')
      else (currentCombined, True, w))"
  by pat_completeness auto
termination
  by (relation "measure (\<lambda>(e, config, v, reg, tx, ty, maxY, c, w). nat (maxY + 1 - ty))") auto

declare tileColumn.simps [simp del]

function tileRows ::
  "env \<Rightarrow> Config \<Rightarrow> string \<Rightarrow> Region \<Rightarrow> TileRangeIdx \<Rightarrow> int \<Rightarrow> Image \<Rightarrow> world
     \<Rightarrow> Image \<times> bool \<times> world" where
  "tileRows e config v reg tr tx currentCombined w =
     (if tx \<le> maxTileX tr then
        (case tileColumn e config v reg tx (minTileY tr) (maxTileY tr) currentCombined w of
           (c, False, w') \<Rightarrow> (c, False, w')
         | (c, True, w') \<Rightarrow> tileRows e config v reg tr (tx + 1) c w')
      else (currentCombined, True, w))"
  by pat_completeness auto
termination
  by (relation "measure (\<lambda>(e, config, v, reg, tr, tx, c, w). nat (maxTileX tr + 1 - tx))") auto

declare tileRows.simps [simp del]

section \<open>Change accumulator\<close>

definition colorsEqual :: "Color \<Rightarrow> Color \<Rightarrow> bool" where
  "colorsEqual c1 c2 =
     (case c1 of (r1, g1, b1, a1) \<Rightarrow>
      case c2 of (r2, g2, b2, a2) \<Rightarrow> r1 = r2 \<and> g1 = g2 \<and> b1 = b2 \<and> a1 = a2)"

text \<open>The comparison loops: \<open>changes[y][x]++\<close> on a \<open>uint32\<close> wherever the two
  canvases differ. Every row has \<open>width\<close> entries and there are \<open>height\<close> rows, so no
  index is out of range.\<close>

function compareRow ::
  "Image \<Rightarrow> Image \<Rightarrow> int \<Rightarrow> int \<Rightarrow> int \<Rightarrow> 32 word list \<Rightarrow> 32 word list" where
  "compareRow currentCombined prevCombined wd y x row =
     (if x < wd then
        compareRow currentCombined prevCombined wd y (x + 1)
          (if \<not> colorsEqual (At currentCombined x y) (At prevCombined x y)
           then row[nat x := row ! nat x + 1] else row)
      else row)"
  by pat_completeness auto
termination
  by (relation "measure (\<lambda>(c, p, wd, y, x, row). nat (wd - x))") auto

declare compareRow.simps [simp del]

function compareRows ::
  "Image \<Rightarrow> Image \<Rightarrow> int \<Rightarrow> int \<Rightarrow> int \<Rightarrow> 32 word list list \<Rightarrow> 32 word list list" where
  "compareRows currentCombined prevCombined wd ht y changes =
     (if y < ht then
        compareRows currentCombined prevCombined wd ht (y + 1)
          (changes[nat y := compareRow currentCombined prevCombined wd y 0 (changes ! nat y)])
      else changes)"
  by pat_completeness auto
termination
  by (relation "measure (\<lambda>(c, p, wd, ht, y, changes). nat (ht - y))") auto

declare compareRows.simps [simp del]

text \<open>The variables of \<open>main\<close> that live across the versions, and the world.\<close>

record Accumulator =
  changes :: "32 word list list"
  prevCombined :: "Image option"
  successCount :: int
  outside :: world

text \<open>One round of the loop over the versions.\<close>

definition processVersion ::
  "env \<Rightarrow> Config \<Rightarrow> Region \<Rightarrow> TileRangeIdx \<Rightarrow> Accumulator \<Rightarrow> string \<Rightarrow> Accumulator" where
  "processVersion e config reg tr acc v =
     (case tileRows e config v reg tr (minTileX tr)
             (NewRGBA (Rect 0 0 (width reg) (height reg))) (outside acc) of
        (currentCombined, versionValid, w) \<Rightarrow>
          if \<not> versionValid then acc \<lparr> outside := w \<rparr>
          else
            acc \<lparr> changes :=
                    (case prevCombined acc of
                       None \<Rightarrow> changes acc
                     | Some prev \<Rightarrow>
                         compareRows currentCombined prev (width reg) (height reg) 0
                           (changes acc)),
                  prevCombined := Some currentCombined,
                  successCount := add64 (successCount acc) 1,
                  outside := w \<rparr>)"





text \<open>The tiles of a range in the order in which the loops visit them, and the tiles of
  a list resolved one after the other up to the first failure: the reference against which
  the loops are compared.\<close>

definition tilesInOrder :: "TileRangeIdx \<Rightarrow> (int \<times> int) list" where
  "tilesInOrder tr =
     concat (map (\<lambda>tx. map (\<lambda>ty. (tx, ty)) [minTileY tr..maxTileY tr])
                 [minTileX tr..maxTileX tr])"

fun resolveInOrder ::
  "env \<Rightarrow> Config \<Rightarrow> string \<Rightarrow> Region \<Rightarrow> (int \<times> int) list \<Rightarrow> Image \<Rightarrow> world
     \<Rightarrow> Image \<times> bool \<times> world" where
  "resolveInOrder e config v reg [] c w = (c, True, w)"
| "resolveInOrder e config v reg (t # ts) c w =
     (case downloadMergedTile e v (CacheDir config) (Zoom config) (fst t) (snd t) w of
        (Inl err, w') \<Rightarrow> (c, False, w')
      | (Inr img, w') \<Rightarrow> resolveInOrder e config v reg ts (blit e reg (fst t) (snd t) img c) w')"


section \<open>Renderer\<close>

subsection \<open>The arithmetic of float64\<close>

text \<open>
  \<open>getHeatColor\<close> computes in \<open>float64\<close>. A finite \<open>float64\<close> is a rational number,
  and each operation returns the exact result rounded to the nearest number with a
  53-bit significand, ties going to the even significand: that rounding is \<open>fl64\<close>.
  The exponent range is not modelled, since every value in \<open>getHeatColor\<close> is 0 or lies
  between \<open>2^-64\<close> and \<open>2^11\<close>; the infinite quotient of a division by zero is a
  case of its own in \<open>getHeatColor\<close>. Each operation is rounded on its own, as on
  amd64; a fused multiply-add, which Go permits, could differ in the last bit.

  \<open>binade x\<close> is the exponent of a positive \<open>x\<close>: \<open>2^(binade x) \<le> x < 2^(binade x + 1)\<close>.
\<close>

function binadeUp :: "rat \<Rightarrow> int" where
  "binadeUp x = (if x < 2 then 0 else binadeUp (x / 2) + 1)"
  by pat_completeness auto
termination
proof (relation "measure (\<lambda>x. nat \<lfloor>x\<rfloor>)")
  show "wf (measure (\<lambda>x::rat. nat \<lfloor>x\<rfloor>))" by simp
next
  fix x :: rat
  assume "\<not> x < 2"
  then have "x / 2 \<le> x - 1" by simp
  then have "\<lfloor>x / 2\<rfloor> \<le> \<lfloor>x - 1\<rfloor>" by (rule floor_mono)
  moreover have "\<lfloor>x - 1\<rfloor> = \<lfloor>x\<rfloor> - 1" by simp
  moreover have "2 \<le> \<lfloor>x\<rfloor>" using \<open>\<not> x < 2\<close> by (simp add: le_floor_iff)
  ultimately show "(x / 2, x) \<in> measure (\<lambda>x. nat \<lfloor>x\<rfloor>)" by simp
qed

declare binadeUp.simps [simp del]

function binadeDown :: "rat \<Rightarrow> int" where
  "binadeDown x = (if x \<le> 0 \<or> 1 \<le> x then 0 else binadeDown (x * 2) - 1)"
  by pat_completeness auto
termination
proof (relation "measure (\<lambda>x. nat \<lceil>1 / x\<rceil>)")
  show "wf (measure (\<lambda>x::rat. nat \<lceil>1 / x\<rceil>))" by simp
next
  fix x :: rat
  assume "\<not> (x \<le> 0 \<or> 1 \<le> x)"
  then have x: "0 < x" "x < 1" by simp_all
  then have "1 < 1 / x" by simp
  then have n: "2 \<le> \<lceil>1 / x\<rceil>" by (simp add: less_ceiling_iff)
  have "1 / (x * 2) = (1 / x) / 2" by simp
  also have "\<dots> \<le> of_int \<lceil>1 / x\<rceil> / 2" by (simp add: divide_right_mono)
  also have "\<dots> \<le> of_int (\<lceil>1 / x\<rceil> - 1)" using n by simp
  finally have "\<lceil>1 / (x * 2)\<rceil> \<le> \<lceil>1 / x\<rceil> - 1" by (rule ceiling_le)
  with n x show "(x * 2, x) \<in> measure (\<lambda>x. nat \<lceil>1 / x\<rceil>)" by simp
qed

declare binadeDown.simps [simp del]

definition binade :: "rat \<Rightarrow> int" where
  "binade x = (if 1 \<le> x then binadeUp x else binadeDown x)"

definition roundEven :: "rat \<Rightarrow> int" where
  "roundEven y =
     (let f = \<lfloor>y\<rfloor>; d = y - of_int f
      in if d < 1 / 2 then f else if 1 / 2 < d then f + 1 else if even f then f else f + 1)"

definition fl64 :: "rat \<Rightarrow> rat" where
  "fl64 x =
     (if x = 0 then 0
      else let q = 2 powi (binade \<bar>x\<bar> - 52)
           in sgn x * (of_int (roundEven (\<bar>x\<bar> / q)) * q))"

subsection \<open>The gradient\<close>

text \<open>\<open>math.Round\<close> rounds to the nearest integer, halves away from zero. The
  conversion \<open>uint8(f)\<close> discards the fraction; for a value that does not fit, and for
  an infinity, the language leaves the result to the implementation: that is \<open>None\<close>.\<close>

definition Round :: "rat \<Rightarrow> rat" where
  "Round x = (if x < 0 then - of_int \<lfloor>- x + 1 / 2\<rfloor> else of_int \<lfloor>x + 1 / 2\<rfloor>)"

definition uint8 :: "rat \<Rightarrow> 8 word option" where
  "uint8 x = (if - 1 < x \<and> x < 256 then Some (of_int (if x < 0 then \<lceil>x\<rceil> else \<lfloor>x\<rfloor>))
              else None)"

definition heatRatio :: "32 word \<Rightarrow> 32 word \<Rightarrow> rat" where
  \<comment> \<open>\<open>float64(val) / float64(max)\<close>, for \<open>max\<close> other than 0\<close>
  "heatRatio val mx = fl64 (of_nat (unat val) / of_nat (unat mx))"

text \<open>The channels \<open>(r, g, b)\<close> before rounding, by the four branches on the ratio.\<close>

definition heatChannels :: "rat \<Rightarrow> rat \<times> rat \<times> rat" where
  "heatChannels ratio =
     (if ratio < 1 / 4 then
        (0, 0, fl64 (fl64 (ratio / (1 / 4)) * 255))
      else if ratio < 1 / 2 then
        (0,
         fl64 (fl64 (fl64 (ratio - 1 / 4) / (1 / 4)) * 255),
         fl64 (255 - fl64 (fl64 (fl64 (ratio - 1 / 4) / (1 / 4)) * 255)))
      else if ratio < 3 / 4 then
        (fl64 (fl64 (fl64 (ratio - 1 / 2) / (1 / 4)) * 255), 255, 0)
      else
        (255, fl64 (255 - fl64 (fl64 (fl64 (ratio - 3 / 4) / (1 / 4)) * 255)), 0))"

text \<open>With \<open>val\<close> other than 0 and \<open>max = 0\<close> the ratio is \<open>+Inf\<close> and the green
  channel \<open>-Inf\<close>, whose conversion to \<open>uint8\<close> is not defined: \<open>None\<close>.\<close>

definition getHeatColor :: "32 word \<Rightarrow> 32 word \<Rightarrow> RGBA option" where
  "getHeatColor val mx =
     (if val = 0 then Some (RGBA 0 0 0 255)
      else if mx = 0 then None
      else
        (case heatChannels (heatRatio val mx) of
           (r, g, b) \<Rightarrow>
             (case uint8 (Round r) of
                None \<Rightarrow> None
              | Some r8 \<Rightarrow>
                  (case uint8 (Round g) of
                     None \<Rightarrow> None
                   | Some g8 \<Rightarrow>
                       (case uint8 (Round b) of
                          None \<Rightarrow> None
                        | Some b8 \<Rightarrow> Some (RGBA r8 g8 b8 255))))))"

subsection \<open>Normalisation and rendering in main\<close>

text \<open>The loops that find \<open>maxChanges\<close>.\<close>

function maxRow :: "32 word list \<Rightarrow> int \<Rightarrow> int \<Rightarrow> 32 word \<Rightarrow> 32 word" where
  "maxRow row wd x maxChanges =
     (if x < wd then
        maxRow row wd (x + 1) (if row ! nat x > maxChanges then row ! nat x else maxChanges)
      else maxChanges)"
  by pat_completeness auto
termination
  by (relation "measure (\<lambda>(row, wd, x, m). nat (wd - x))") auto

declare maxRow.simps [simp del]

function maxRows :: "32 word list list \<Rightarrow> int \<Rightarrow> int \<Rightarrow> int \<Rightarrow> 32 word \<Rightarrow> 32 word" where
  "maxRows chg wd ht y maxChanges =
     (if y < ht then maxRows chg wd ht (y + 1) (maxRow (chg ! nat y) wd 0 maxChanges)
      else maxChanges)"
  by pat_completeness auto
termination
  by (relation "measure (\<lambda>(chg, wd, ht, y, m). nat (ht - y))") auto

declare maxRows.simps [simp del]

text \<open>\<open>heatmap.Set(x, y, c)\<close> on an \<open>*image.RGBA\<close>, and the loops that fill the
  heatmap. They end with \<open>None\<close> as soon as \<open>getHeatColor\<close> does.\<close>

definition SetRGBA :: "Image \<Rightarrow> int \<Rightarrow> int \<Rightarrow> RGBA \<Rightarrow> Image" where
  "SetRGBA img x y c =
     (if In x y (Bounds img)
      then img \<lparr> Pix := (\<lambda>x' y'. if x' = x \<and> y' = y then colorOf c else Pix img x' y') \<rparr>
      else img)"

function renderRow ::
  "32 word list list \<Rightarrow> 32 word \<Rightarrow> int \<Rightarrow> int \<Rightarrow> int \<Rightarrow> Image \<Rightarrow> Image option" where
  "renderRow chg maxChanges wd y x heatmap =
     (if x < wd then
        (case getHeatColor (chg ! nat y ! nat x) maxChanges of
           None \<Rightarrow> None
         | Some c \<Rightarrow> renderRow chg maxChanges wd y (x + 1) (SetRGBA heatmap x y c))
      else Some heatmap)"
  by pat_completeness auto
termination
  by (relation "measure (\<lambda>(chg, m, wd, y, x, h). nat (wd - x))") auto

declare renderRow.simps [simp del]

function renderRows ::
  "32 word list list \<Rightarrow> 32 word \<Rightarrow> int \<Rightarrow> int \<Rightarrow> int \<Rightarrow> Image \<Rightarrow> Image option" where
  "renderRows chg maxChanges wd ht y heatmap =
     (if y < ht then
        (case renderRow chg maxChanges wd y 0 heatmap of
           None \<Rightarrow> None
         | Some h \<Rightarrow> renderRows chg maxChanges wd ht (y + 1) h)
      else Some heatmap)"
  by pat_completeness auto
termination
  by (relation "measure (\<lambda>(chg, m, wd, ht, y, h). nat (ht - y))") auto

declare renderRows.simps [simp del]

definition render :: "Region \<Rightarrow> Accumulator \<Rightarrow> Image option" where
  "render reg acc =
     (let maxChanges = maxRows (changes acc) (width reg) (height reg) 0 0
      in renderRows (changes acc) maxChanges (width reg) (height reg) 0
           (NewRGBA (Rect 0 0 (width reg) (height reg))))"

section \<open>Properties of the coordinate translation\<close>

subsection \<open>64-bit arithmetic\<close>

lemma int64_id: "- 9223372036854775808 \<le> k \<Longrightarrow> k < 9223372036854775808 \<Longrightarrow> int64 k = k"
  by (simp add: int64_def)

lemma int64_range: "- 9223372036854775808 \<le> int64 k \<and> int64 k < 9223372036854775808"
  unfolding int64_def
  using pos_mod_bound [of 18446744073709551616 "k + 9223372036854775808"]
        pos_mod_sign [of 18446744073709551616 "k + 9223372036854775808"]
  by linarith

lemma int64_int64_diff: "int64 (int64 a - b) = int64 (a - b)"
proof -
  have "(((a + 9223372036854775808) mod 18446744073709551616 - 9223372036854775808) - b
          + 9223372036854775808) mod 18446744073709551616
      = ((a + 9223372036854775808) mod 18446744073709551616 - b) mod 18446744073709551616"
    by (simp add: algebra_simps)
  also have "\<dots> = (a + 9223372036854775808 - b) mod 18446744073709551616"
    by (rule mod_diff_left_eq)
  also have "\<dots> = (a - b + 9223372036854775808) mod 18446744073709551616"
    by (simp add: algebra_simps)
  finally show ?thesis by (simp add: int64_def)
qed

subsection \<open>Splitting\<close>

lemma Split_nonempty: "Split s c \<noteq> []"
  by (induction s) (auto split: list.splits)

lemma Split_append: "Split (A @ c # B) c = Split A c @ Split B c"
proof (induction A)
  case Nil
  show ?case by simp
next
  case (Cons x A)
  then show ?case
    using Split_nonempty [of A c] by (cases "Split A c") auto
qed

lemma Split_no_sep: "t \<in> set (Split s c) \<Longrightarrow> c \<notin> set t"
proof (induction s arbitrary: t)
  case Nil
  then show ?case by simp
next
  case (Cons x s)
  then show ?case
    using Split_nonempty [of s c]
    by (cases "Split s c") (auto split: if_splits)
qed

lemma Split_single: "length (Split s c) = Suc 0 \<Longrightarrow> Split s c = [s]"
proof (induction s)
  case Nil
  then show ?case by simp
next
  case (Cons x s)
  then show ?case
    using Split_nonempty [of s c]
    by (cases "Split s c") (auto split: if_splits)
qed

lemma atoiAll_append:
  "atoiAll (xs @ ys) =
     (case atoiAll xs of Inl e \<Rightarrow> Inl e
      | Inr vs \<Rightarrow> (case atoiAll ys of Inl e \<Rightarrow> Inl e | Inr ws \<Rightarrow> Inr (vs @ ws)))"
  by (induction xs) (auto split: prod.splits option.splits sum.splits)

lemma atoiAll_length: "atoiAll xs = Inr vs \<Longrightarrow> length vs = length xs"
  by (induction xs arbitrary: vs) (auto split: prod.splits option.splits sum.splits)

lemma length_four: "length vs = 4 \<Longrightarrow> \<exists>a b c d. vs = [a, b, c, d]"
  by (auto simp: length_Suc_conv numeral_eq_Suc)

subsection \<open>Order of the corners\<close>

lemma fullsize_swap:
  assumes "length (Split A CHR ''-'') = 4" and "length (Split B CHR ''-'') = 4"
  shows "produced (parseFullsize (A @ ''-'' @ B)) = produced (parseFullsize (B @ ''-'' @ A))"
proof -
  note sA = Split_append [of A "CHR ''-''" B]
  note sB = Split_append [of B "CHR ''-''" A]
  show ?thesis
  proof (cases "atoiAll (Split A CHR ''-'')")
    case (Inl e)
    then show ?thesis
      using assms
      by (simp add: parseFullsize_def sA sB atoiAll_append produced_def Let_def
               split: sum.splits)
  next
    case (Inr va)
    note a = this
    show ?thesis
    proof (cases "atoiAll (Split B CHR ''-'')")
      case (Inl e)
      then show ?thesis
        using assms
        by (simp add: parseFullsize_def sA sB atoiAll_append produced_def Let_def
                 split: sum.splits)
    next
      case (Inr vb)
      from a assms have "length va = 4" by (simp add: atoiAll_length)
      then obtain a0 a1 a2 a3 where va: "va = [a0, a1, a2, a3]"
        using length_four by blast
      from Inr assms have "length vb = 4" by (simp add: atoiAll_length)
      then obtain b0 b1 b2 b3 where vb: "vb = [b0, b1, b2, b3]"
        using length_four by blast
      show ?thesis
        using assms a Inr
        by (simp add: parseFullsize_def sA sB atoiAll_append produced_def Let_def va vb)
    qed
  qed
qed

lemma tilerange_swap:
  "produced (parseTileRange (P @ ''_'' @ Q)) = produced (parseTileRange (Q @ ''_'' @ P))"
proof -
  note sP = Split_append [of P "CHR ''_''" Q]
  note sQ = Split_append [of Q "CHR ''_''" P]
  show ?thesis
  proof (cases "length (Split P CHR ''_'') = 1 \<and> length (Split Q CHR ''_'') = 1")
    case True
    then have p: "Split P CHR ''_'' = [P]" and q: "Split Q CHR ''_'' = [Q]"
      by (simp_all add: Split_single)
    show ?thesis
      by (auto simp add: parseTileRange_def sP sQ p q produced_def Let_def)
  next
    case False
    then have "length (Split P CHR ''_'') + length (Split Q CHR ''_'') \<noteq> 2"
      using Split_nonempty [of P "CHR ''_''"] Split_nonempty [of Q "CHR ''_''"]
      by (cases "Split P CHR ''_''"; cases "Split Q CHR ''_''") auto
    then show ?thesis
      by (simp add: parseTileRange_def sP sQ produced_def Let_def add.commute)
  qed
qed

text \<open>
  Claim C8. Region parsing does not depend on the order of the two corners. For the
  eight-field encoding, with \<open>A\<close> and \<open>B\<close> two corners of four fields each, the strings
  \<open>A-B\<close> and \<open>B-A\<close> produce the same Region (origin, width and height) and hence the
  same tile range, and one fails exactly when the other does. For the tile-range encoding
  the strings \<open>P_Q\<close> and \<open>Q_P\<close> produce the same normalised range, for any \<open>P\<close> and
  \<open>Q\<close>.
\<close>

theorem corner_order_invariant:
  assumes "length (Split A CHR ''-'') = 4" and "length (Split B CHR ''-'') = 4"
  shows "produced (parseFullsize (A @ ''-'' @ B)) = produced (parseFullsize (B @ ''-'' @ A))
       \<and> map_option tileRange (produced (parseFullsize (A @ ''-'' @ B)))
           = map_option tileRange (produced (parseFullsize (B @ ''-'' @ A)))
       \<and> produced (parseTileRange (P @ ''_'' @ Q)) = produced (parseTileRange (Q @ ''_'' @ P))"
  using fullsize_swap [OF assms] tilerange_swap [of P Q] by simp

theorem corner_order_invariant_witness:
  "length (Split ''1818-806-10-20'' CHR ''-'') = 4
   \<and> length (Split ''1819-807-5-7'' CHR ''-'') = 4
   \<and> produced (parseFullsize ''1818-806-10-20-1819-807-5-7'')
       = Some \<lparr> startX = 1818010, startY = 806020, width = 995, height = 987 \<rparr>
   \<and> produced (parseFullsize ''1819-807-5-7-1818-806-10-20'')
       = Some \<lparr> startX = 1818010, startY = 806020, width = 995, height = 987 \<rparr>
   \<and> produced (parseTileRange ''1819-807_1818-806'') = Some (1818, 806, 1819, 807)
   \<and> produced (parseTileRange ''1818-806_1819-807'') = Some (1818, 806, 1819, 807)"
  using corner_order_invariant [of "''1818-806-10-20''" "''1819-807-5-7''"
          "''1819-807''" "''1818-806''"]
  by (simp add: parseFullsize_def parseTileRange_def produced_def Atoi_def isDigit_def
        add64_def mul64_def sub64_def int64_def TileSize_def)

text \<open>
  Claim C4. A malformed numeric field in the tile-range or single-tile encoding should
  fail with a parse error. The code drops the error of \<open>strconv.Atoi\<close> in both places
  and reads the field as 0: \<open>a-b_c-d\<close> is accepted as the tile range (0,0)-(0,0) and
  \<open>x-y\<close> as the single tile (0,0), each giving the Region of tile (0,0), where the sibling
  \<open>parseFullsize\<close> rejects a non-numeric field. A wrong number of fields is rejected with
  an error carrying the input.
\<close>

theorem malformed_tile_fields_accepted:
  "parseTileRange ''a-b_c-d'' = Inr (0, 0, 0, 0)
   \<and> translate (flagDefaults \<lparr> TileRange := ''a-b_c-d'' \<rparr>)
       = Inr \<lparr> startX = 0, startY = 0, width = 1000, height = 1000 \<rparr>
   \<and> translate (flagDefaults \<lparr> SingleTile := ''x-y'' \<rparr>)
       = Inr \<lparr> startX = 0, startY = 0, width = 1000, height = 1000 \<rparr>
   \<and> parseFullsize ''a-0-0-0-1-1'' = Inl (ErrSyntax ''a'')
   \<and> parseTileRange ''1-2-3-4'' = Inl (Errorf ''invalid tile range format: 1-2-3-4'')"
  by (simp add: parseFullsize_def parseTileRange_def translate_def flagDefaults_def
        Atoi_def isDigit_def add64_def mul64_def sub64_def int64_def TileSize_def)

theorem malformed_tile_fields_accepted_witness:
  "produced (parseTileRange ''a-b_c-d'') = Some (0, 0, 0, 0)
   \<and> produced (parseFullsize ''a-0-0-0-1-1'') = None"
  using malformed_tile_fields_accepted by (simp add: produced_def)

subsection \<open>The tile range\<close>

lemma quo64_nonneg: "0 \<le> k \<Longrightarrow> quo64 k TileSize = k div TileSize"
  by (simp add: quo64_def TileSize_def signed_divide_int_def sgn_if)

lemma quo64_neg: "k < 0 \<Longrightarrow> quo64 k TileSize = - ((- k) div TileSize)"
  by (simp add: quo64_def TileSize_def signed_divide_int_def sgn_if)

lemma last_pixel_no_wrap:
  assumes "0 \<le> a" "0 < w" "a + w \<le> 9223372036854775808"
  shows "sub64 (add64 a w) 1 = a + w - 1"
proof -
  have "sub64 (add64 a w) 1 = int64 (a + w - 1)"
    by (simp add: sub64_def add64_def int64_int64_diff)
  also have "\<dots> = a + w - 1"
    using assms by (intro int64_id) linarith+
  finally show ?thesis .
qed

lemma tileRange_floor:
  assumes "0 \<le> startX r" "0 \<le> startY r" "0 < width r" "0 < height r"
    and "startX r + width r \<le> 9223372036854775808"
    and "startY r + height r \<le> 9223372036854775808"
  shows "tileRange r = floorTileRange r"
proof -
  have x: "sub64 (add64 (startX r) (width r)) 1 = startX r + width r - 1"
    using assms by (intro last_pixel_no_wrap) simp_all
  have y: "sub64 (add64 (startY r) (height r)) 1 = startY r + height r - 1"
    using assms by (intro last_pixel_no_wrap) simp_all
  have "0 \<le> startX r + width r - 1" "0 \<le> startY r + height r - 1"
    using assms by linarith+
  then show ?thesis
    using assms by (simp add: tileRange_def floorTileRange_def x y quo64_nonneg)
qed

text \<open>
  Claim C1, amended. The tile range of a Region is computed with Go's integer division,
  which truncates towards zero: the first tile index is the floor of origin/TileSize for
  an origin that is not negative, and the ceiling for a negative one. For a Region with
  a non-negative origin and a positive extent whose far corner fits in 64 bits, the range
  is the floor range of the specification, \<open>floor(origin/TileSize)\<close> through
  \<open>floor((origin+extent-1)/TileSize)\<close>, on both axes.
\<close>

theorem tileRange_truncates:
  assumes "translate config = Inr r"
  shows "minTileX (tileRange r)
           = (if 0 \<le> startX r then startX r div TileSize else - ((- startX r) div TileSize))
       \<and> minTileY (tileRange r)
           = (if 0 \<le> startY r then startY r div TileSize else - ((- startY r) div TileSize))
       \<and> (0 \<le> startX r \<and> 0 \<le> startY r \<and> 0 < width r \<and> 0 < height r
            \<and> startX r + width r \<le> 9223372036854775808
            \<and> startY r + height r \<le> 9223372036854775808
          \<longrightarrow> tileRange r = floorTileRange r)"
  using tileRange_floor [of r]
  by (simp add: tileRange_def quo64_nonneg quo64_neg)

text \<open>
  The claim as stated fails for a negative origin, which the wrap-around of a large tile
  index produces (single tile \<open>9223372036854776-0\<close>), and for an empty extent at
  the origin (\<open>0-0-0-0-0-0\<close>, where the last pixel is -1).
\<close>

theorem tileRange_truncates_counterexample:
  "translate (flagDefaults \<lparr> SingleTile := ''9223372036854776-0'' \<rparr>)
     = Inr \<lparr> startX = - 9223372036854775616, startY = 0, width = 1000, height = 1000 \<rparr>
   \<and> minTileX (tileRange \<lparr> startX = - 9223372036854775616, startY = 0,
                            width = 1000, height = 1000 \<rparr>) = - 9223372036854775
   \<and> minTileX (floorTileRange \<lparr> startX = - 9223372036854775616, startY = 0,
                                 width = 1000, height = 1000 \<rparr>) = - 9223372036854776
   \<and> tileRange \<lparr> startX = - 9223372036854775616, startY = 0, width = 1000, height = 1000 \<rparr>
       \<noteq> floorTileRange \<lparr> startX = - 9223372036854775616, startY = 0,
                           width = 1000, height = 1000 \<rparr>
   \<and> translate (flagDefaults \<lparr> Fullsize := ''0-0-0-0-0-0'' \<rparr>)
     = Inr \<lparr> startX = 0, startY = 0, width = 0, height = 0 \<rparr>
   \<and> maxTileX (tileRange \<lparr> startX = 0, startY = 0, width = 0, height = 0 \<rparr>) = 0
   \<and> maxTileX (floorTileRange \<lparr> startX = 0, startY = 0, width = 0, height = 0 \<rparr>) = - 1"
  by (simp add: translate_def flagDefaults_def parseFullsize_def Atoi_def isDigit_def mul64_def add64_def
        sub64_def int64_def TileSize_def tileRange_def floorTileRange_def quo64_def
        signed_divide_int_def)

theorem tileRange_truncates_witness:
  "translate (flagDefaults \<lparr> Fullsize := ''1818-806-10-20-300-400'' \<rparr>)
     = Inr \<lparr> startX = 1818010, startY = 806020, width = 300, height = 400 \<rparr>
   \<and> tileRange \<lparr> startX = 1818010, startY = 806020, width = 300, height = 400 \<rparr>
       = \<lparr> minTileX = 1818, minTileY = 806, maxTileX = 1818, maxTileY = 806 \<rparr>
   \<and> floorTileRange \<lparr> startX = 1818010, startY = 806020, width = 300, height = 400 \<rparr>
       = \<lparr> minTileX = 1818, minTileY = 806, maxTileX = 1818, maxTileY = 806 \<rparr>"
proof -
  have t: "translate (flagDefaults \<lparr> Fullsize := ''1818-806-10-20-300-400'' \<rparr>)
     = Inr \<lparr> startX = 1818010, startY = 806020, width = 300, height = 400 \<rparr>"
    by (simp add: translate_def flagDefaults_def parseFullsize_def Atoi_def isDigit_def
        mul64_def add64_def int64_def TileSize_def)
  show ?thesis
    using tileRange_truncates [OF t] t
    by (simp add: floorTileRange_def TileSize_def)
qed

subsection \<open>Size of the parsed numbers\<close>

lemma decimal_bounds:
  "list_all isDigit cs \<Longrightarrow> 0 \<le> n \<Longrightarrow>
     n * 10 ^ length cs \<le> decimal n cs \<and> decimal n cs < (n + 1) * 10 ^ length cs"
proof (induction cs arbitrary: n)
  case Nil
  then show ?case by simp
next
  case (Cons c cs)
  let ?d = "(of_char c :: int) - 48"
  let ?m = "n * 10 + ?d"
  from Cons.prems have d: "0 \<le> ?d" "?d \<le> 9" by (simp_all add: isDigit_def)
  with Cons.prems have m: "0 \<le> ?m" by simp
  from Cons.prems have "list_all isDigit cs" by simp
  from Cons.IH [OF this m]
  have ih: "?m * 10 ^ length cs \<le> decimal ?m cs" "decimal ?m cs < (?m + 1) * 10 ^ length cs"
    by simp_all
  have p: "(0::int) \<le> 10 ^ length cs" by simp
  have lo: "n * 10 * 10 ^ length cs \<le> ?m * 10 ^ length cs"
    using d p by (intro mult_right_mono) simp_all
  have hi: "(?m + 1) * 10 ^ length cs \<le> (n + 1) * 10 * 10 ^ length cs"
    using d p by (intro mult_right_mono) simp_all
  have e1: "decimal n (c # cs) = decimal ?m cs" by simp
  have e2: "n * 10 ^ length (c # cs) = n * 10 * 10 ^ length cs" by simp
  have e3: "(n + 1) * 10 ^ length (c # cs) = (n + 1) * 10 * 10 ^ length cs" by simp
  show ?case unfolding e1 e2 e3 using lo hi ih by linarith
qed

lemma decimal_short:
  assumes "list_all isDigit cs" "length cs \<le> 15"
  shows "0 \<le> decimal 0 cs \<and> decimal 0 cs < 1000000000000000"
proof -
  from decimal_bounds [OF assms(1), of 0]
  have "0 \<le> decimal 0 cs" "decimal 0 cs < 10 ^ length cs" by simp_all
  moreover have "(10::int) ^ length cs \<le> 10 ^ 15"
    using assms(2) by (intro power_increasing) simp_all
  ultimately show ?thesis by simp
qed

lemma Atoi_short:
  assumes "CHR ''-'' \<notin> set t" "length t \<le> 15"
  shows "0 \<le> fst (Atoi t) \<and> fst (Atoi t) < 1000000000000000"
proof -
  let ?body = "if t \<noteq> [] \<and> (hd t = CHR ''-'' \<or> hd t = CHR ''+'') then tl t else t"
  have neg: "\<not> (t \<noteq> [] \<and> hd t = CHR ''-'')" using assms(1) by (cases t) auto
  have len: "length ?body \<le> 15" using assms(2) by (cases t) auto
  show ?thesis
  proof (cases "?body = [] \<or> \<not> list_all isDigit ?body")
    case True
    then show ?thesis by (simp add: Atoi_def Let_def)
  next
    case False
    then have "list_all isDigit ?body" by blast
    from decimal_short [OF this len]
    have b: "0 \<le> decimal 0 ?body" "decimal 0 ?body < 1000000000000000" by blast+
    then have "\<not> 9223372036854775808 \<le> decimal 0 ?body" by linarith
    with False neg b show ?thesis
      unfolding Atoi_def Let_def by (simp only: if_False fst_conv simp_thms)
  qed
qed

lemma atoiAll_short:
  "atoiAll ps = Inr vs \<Longrightarrow> \<forall>t\<in>set ps. CHR ''-'' \<notin> set t \<and> length t \<le> 15 \<Longrightarrow>
     list_all (\<lambda>v. 0 \<le> v \<and> v < 1000000000000000) vs"
proof (induction ps arbitrary: vs)
  case Nil
  then show ?case by simp
next
  case (Cons p ps)
  from Cons.prems(1) obtain v ws where a: "Atoi p = (v, None)" and w: "atoiAll ps = Inr ws"
    and vs: "vs = v # ws"
    by (auto split: prod.splits option.splits sum.splits)
  from Cons.prems(2) have "CHR ''-'' \<notin> set p" "length p \<le> 15" by simp_all
  from Atoi_short [OF this] a have "0 \<le> v \<and> v < 1000000000000000" by simp
  moreover from Cons.IH [OF w] Cons.prems(2)
  have "list_all (\<lambda>v. 0 \<le> v \<and> v < 1000000000000000) ws" by simp
  ultimately show ?case by (simp add: vs)
qed

lemma origin_small:
  assumes "0 \<le> a" "a < 1000000000000000" "0 \<le> b" "b < 1000000000000000"
  shows "add64 (mul64 a TileSize) b = a * 1000 + b"
proof -
  have "mul64 a TileSize = a * 1000"
    unfolding mul64_def TileSize_def using assms by (intro int64_id) linarith+
  then show ?thesis
    unfolding add64_def using assms by (simp add: int64_id)
qed

lemma fullsize_short:
  assumes p: "parseFullsize fs = Inr r"
    and s: "\<forall>t\<in>set (Split fs CHR ''-''). length t \<le> 15"
  shows "0 \<le> startX r \<and> startX r < 2000000000000000000
       \<and> 0 \<le> startY r \<and> startY r < 2000000000000000000
       \<and> 0 \<le> width r \<and> width r < 2000000000000000000
       \<and> 0 \<le> height r \<and> height r < 2000000000000000000"
proof -
  let ?B = "1000000000000000 :: int"
  have s': "\<forall>t\<in>set (Split fs CHR ''-''). CHR ''-'' \<notin> set t \<and> length t \<le> 15"
    using s Split_no_sep by blast
  from p obtain vals where v: "atoiAll (Split fs CHR ''-'') = Inr vals"
    by (auto simp: parseFullsize_def Let_def split: if_splits sum.splits)
  from atoiAll_short [OF v s'] have all: "list_all (\<lambda>v. 0 \<le> v \<and> v < ?B) vals" .
  have len: "length vals = length (Split fs CHR ''-'')" using v by (rule atoiAll_length)
  show ?thesis
  proof (cases "length (Split fs CHR ''-'') = 6")
    case True
    with len all have b: "\<forall>i<6. 0 \<le> vals ! i \<and> vals ! i < ?B"
      by (simp add: list_all_length)
    have r: "r = \<lparr> startX = add64 (mul64 (vals ! 0) TileSize) (vals ! 2),
                   startY = add64 (mul64 (vals ! 1) TileSize) (vals ! 3),
                   width = vals ! 4, height = vals ! 5 \<rparr>"
      using p True v by (auto simp add: parseFullsize_def Let_def)
    have x: "add64 (mul64 (vals ! 0) TileSize) (vals ! 2) = vals ! 0 * 1000 + vals ! 2"
      using b by (intro origin_small) simp_all
    have y: "add64 (mul64 (vals ! 1) TileSize) (vals ! 3) = vals ! 1 * 1000 + vals ! 3"
      using b by (intro origin_small) simp_all
    have "0 \<le> vals ! 0 \<and> vals ! 0 < ?B" "0 \<le> vals ! 1 \<and> vals ! 1 < ?B"
      "0 \<le> vals ! 2 \<and> vals ! 2 < ?B" "0 \<le> vals ! 3 \<and> vals ! 3 < ?B"
      "0 \<le> vals ! 4 \<and> vals ! 4 < ?B" "0 \<le> vals ! 5 \<and> vals ! 5 < ?B"
      using b by simp_all
    then show ?thesis unfolding r x y by simp
  next
    case False
    with p have eight: "length (Split fs CHR ''-'') = 8"
      by (auto simp: parseFullsize_def Let_def split: if_splits)
    with len all have b: "\<forall>i<8. 0 \<le> vals ! i \<and> vals ! i < ?B"
      by (simp add: list_all_length)
    define x1 where "x1 = vals ! 0 * 1000 + vals ! 2"
    define y1 where "y1 = vals ! 1 * 1000 + vals ! 3"
    define x2 where "x2 = vals ! 4 * 1000 + vals ! 6"
    define y2 where "y2 = vals ! 5 * 1000 + vals ! 7"
    have ex1: "add64 (mul64 (vals ! 0) TileSize) (vals ! 2) = x1"
      unfolding x1_def using b by (intro origin_small) simp_all
    have ey1: "add64 (mul64 (vals ! 1) TileSize) (vals ! 3) = y1"
      unfolding y1_def using b by (intro origin_small) simp_all
    have ex2: "add64 (mul64 (vals ! 4) TileSize) (vals ! 6) = x2"
      unfolding x2_def using b by (intro origin_small) simp_all
    have ey2: "add64 (mul64 (vals ! 5) TileSize) (vals ! 7) = y2"
      unfolding y2_def using b by (intro origin_small) simp_all
    have "0 \<le> vals ! 0 \<and> vals ! 0 < ?B" "0 \<le> vals ! 1 \<and> vals ! 1 < ?B"
      "0 \<le> vals ! 2 \<and> vals ! 2 < ?B" "0 \<le> vals ! 3 \<and> vals ! 3 < ?B"
      "0 \<le> vals ! 4 \<and> vals ! 4 < ?B" "0 \<le> vals ! 5 \<and> vals ! 5 < ?B"
      "0 \<le> vals ! 6 \<and> vals ! 6 < ?B" "0 \<le> vals ! 7 \<and> vals ! 7 < ?B"
      using b by simp_all
    then have bx: "0 \<le> x1" "x1 < 2000000000000000000" "0 \<le> x2" "x2 < 2000000000000000000"
      "0 \<le> y1" "y1 < 2000000000000000000" "0 \<le> y2" "y2 < 2000000000000000000"
      unfolding x1_def x2_def y1_def y2_def by linarith+
    have d: "\<And>a c. 0 \<le> a \<Longrightarrow> a \<le> c \<Longrightarrow> c < 2000000000000000000 \<Longrightarrow> sub64 c a = c - a"
      unfolding sub64_def by (intro int64_id) linarith+
    have r: "r = \<lparr> startX = min x1 x2, startY = min y1 y2,
                   width = sub64 (max x1 x2) (min x1 x2),
                   height = sub64 (max y1 y2) (min y1 y2) \<rparr>"
      using p False eight v
      by (auto simp add: parseFullsize_def Let_def ex1 ex2 ey1 [simplified] ey2 min_def max_def
            split: if_splits)
    have w: "sub64 (max x1 x2) (min x1 x2) = max x1 x2 - min x1 x2"
      using bx by (intro d) (simp_all add: min_def max_def)
    have h: "sub64 (max y1 y2) (min y1 y2) = max y1 y2 - min y1 y2"
      using bx by (intro d) (simp_all add: min_def max_def)
    show ?thesis unfolding r w h using bx by (simp add: min_def max_def)
  qed
qed

subsection \<open>The Region invariant\<close>

lemma length_two: "length vs = 2 \<Longrightarrow> \<exists>a b. vs = [a, b]"
  by (auto simp: length_Suc_conv numeral_eq_Suc)

lemma field_short:
  assumes "t \<in> set (Split s CHR ''-'')" "length t \<le> 15"
  shows "0 \<le> fst (Atoi t) \<and> fst (Atoi t) < 1000000000000000"
  using assms Split_no_sep [of t s "CHR ''-''"] by (intro Atoi_short) simp_all

lemma tiles_short:
  assumes p: "parseTileRange tr = Inr (x1, y1, x2, y2)"
    and s: "\<forall>t\<in>set (concat (map (\<lambda>p. Split p CHR ''-'') (Split tr CHR ''_''))). length t \<le> 15"
  shows "0 \<le> x1 \<and> x1 \<le> x2 \<and> x2 < 1000000000000000
       \<and> 0 \<le> y1 \<and> y1 \<le> y2 \<and> y2 < 1000000000000000"
proof -
  from p have "length (Split tr CHR ''_'') = 2"
    by (auto simp: parseTileRange_def Let_def split: if_splits)
  then obtain P Q where pq: "Split tr CHR ''_'' = [P, Q]" using length_two by blast
  from p pq have "length (Split P CHR ''-'') = 2" "length (Split Q CHR ''-'') = 2"
    by (auto simp: parseTileRange_def Let_def split: if_splits)
  then obtain a b c d where ab: "Split P CHR ''-'' = [a, b]" and cd: "Split Q CHR ''-'' = [c, d]"
    using length_two by blast
  from s pq ab cd have "length a \<le> 15" "length b \<le> 15" "length c \<le> 15" "length d \<le> 15"
    by simp_all
  then have "0 \<le> fst (Atoi a) \<and> fst (Atoi a) < 1000000000000000"
    "0 \<le> fst (Atoi b) \<and> fst (Atoi b) < 1000000000000000"
    "0 \<le> fst (Atoi c) \<and> fst (Atoi c) < 1000000000000000"
    "0 \<le> fst (Atoi d) \<and> fst (Atoi d) < 1000000000000000"
    using field_short [of a P] field_short [of b P] field_short [of c Q] field_short [of d Q]
      ab cd by simp_all
  moreover have "x1 = min (fst (Atoi a)) (fst (Atoi c))" "x2 = max (fst (Atoi a)) (fst (Atoi c))"
    "y1 = min (fst (Atoi b)) (fst (Atoi d))" "y2 = max (fst (Atoi b)) (fst (Atoi d))"
    using p pq ab cd
    by (auto simp: parseTileRange_def Let_def min_def max_def split: if_splits)
  ultimately show ?thesis by (simp add: min_def max_def)
qed

lemma tile_origin_small:
  assumes "0 \<le> a" "a \<le> 1000000000000000"
  shows "mul64 a TileSize = a * 1000"
  unfolding mul64_def TileSize_def using assms by (intro int64_id) linarith+

lemma tile_extent_small:
  assumes "0 \<le> a" "a \<le> c" "c < 1000000000000000"
  shows "mul64 (add64 (sub64 c a) 1) TileSize = (c - a + 1) * 1000"
proof -
  have "sub64 c a = c - a"
    unfolding sub64_def using assms by (intro int64_id) linarith+
  moreover have "add64 (c - a) 1 = c - a + 1"
    unfolding add64_def using assms by (intro int64_id) linarith+
  moreover have "mul64 (c - a + 1) TileSize = (c - a + 1) * 1000"
    using assms by (intro tile_origin_small) linarith+
  ultimately show ?thesis by simp
qed

lemma region_short:
  assumes t: "translate config = Inr r"
    and s: "\<forall>t\<in>set (fieldsOf config). length t \<le> 15"
  shows "0 \<le> startX r \<and> startX r < 2000000000000000000
       \<and> 0 \<le> startY r \<and> startY r < 2000000000000000000
       \<and> 0 \<le> width r \<and> width r < 2000000000000000000
       \<and> 0 \<le> height r \<and> height r < 2000000000000000000
       \<and> (Fullsize config = [] \<longrightarrow> 0 < width r \<and> 0 < height r)"
proof (cases "Fullsize config \<noteq> []")
  case True
  with t have "parseFullsize (Fullsize config) = Inr r"
    by (auto simp: translate_def split: sum.splits)
  moreover from s True have "\<forall>t\<in>set (Split (Fullsize config) CHR ''-''). length t \<le> 15"
    by (simp add: fieldsOf_def)
  ultimately show ?thesis using True fullsize_short by blast
next
  case False
  note nf = this
  show ?thesis
  proof (cases "TileRange config \<noteq> []")
    case True
    with t nf obtain x1 y1 x2 y2 where
      p: "parseTileRange (TileRange config) = Inr (x1, y1, x2, y2)"
      and r: "r = \<lparr> startX = mul64 x1 TileSize, startY = mul64 y1 TileSize,
                    width = mul64 (add64 (sub64 x2 x1) 1) TileSize,
                    height = mul64 (add64 (sub64 y2 y1) 1) TileSize \<rparr>"
      by (auto simp: translate_def split: sum.splits)
    from s nf True have "\<forall>t\<in>set (concat (map (\<lambda>p. Split p CHR ''-'')
        (Split (TileRange config) CHR ''_''))). length t \<le> 15"
      by (simp add: fieldsOf_def)
    from tiles_short [OF p this]
    have b: "0 \<le> x1" "x1 \<le> x2" "x2 < 1000000000000000"
      "0 \<le> y1" "y1 \<le> y2" "y2 < 1000000000000000" by simp_all
    have "mul64 x1 TileSize = x1 * 1000" "mul64 y1 TileSize = y1 * 1000"
      using b by (simp_all add: tile_origin_small)
    moreover have "mul64 (add64 (sub64 x2 x1) 1) TileSize = (x2 - x1 + 1) * 1000"
      "mul64 (add64 (sub64 y2 y1) 1) TileSize = (y2 - y1 + 1) * 1000"
      using b by (simp_all add: tile_extent_small)
    ultimately show ?thesis using b nf by (simp add: r)
  next
    case False
    note nt = this
    show ?thesis
    proof (cases "SingleTile config \<noteq> []")
      case True
      with t nf nt have len: "length (Split (SingleTile config) CHR ''-'') = 2"
        by (auto simp: translate_def Let_def split: if_splits)
      then obtain a b where ab: "Split (SingleTile config) CHR ''-'' = [a, b]"
        using length_two by blast
      from t nf nt True ab have r: "r = \<lparr> startX = mul64 (fst (Atoi a)) TileSize,
          startY = mul64 (fst (Atoi b)) TileSize, width = TileSize, height = TileSize \<rparr>"
        by (auto simp: translate_def Let_def)
      from s nf nt ab have "length a \<le> 15" "length b \<le> 15" by (simp_all add: fieldsOf_def)
      then have "0 \<le> fst (Atoi a) \<and> fst (Atoi a) < 1000000000000000"
        "0 \<le> fst (Atoi b) \<and> fst (Atoi b) < 1000000000000000"
        using field_short [of a "SingleTile config"] field_short [of b "SingleTile config"] ab
        by simp_all
      then show ?thesis
        using nf by (simp add: r tile_origin_small [unfolded TileSize_def] TileSize_def)
    next
      case False
      with t nf nt have "r = \<lparr> startX = mul64 1818 TileSize, startY = mul64 806 TileSize,
                 width = 1000, height = 1000 \<rparr>"
        by (simp add: translate_def)
      then show ?thesis by (simp add: mul64_def int64_def TileSize_def)
    qed
  qed
qed

lemma tileRange_nonempty:
  assumes "0 \<le> startX r" "0 \<le> startY r" "0 < width r" "0 < height r"
    and "startX r + width r \<le> 9223372036854775808"
    and "startY r + height r \<le> 9223372036854775808"
  shows "minTileX (tileRange r) \<le> maxTileX (tileRange r)
       \<and> minTileY (tileRange r) \<le> maxTileY (tileRange r)"
proof -
  have "startX r div 1000 \<le> (startX r + width r - 1) div 1000"
    using assms by (intro zdiv_mono1) simp_all
  moreover have "startY r div 1000 \<le> (startY r + height r - 1) div 1000"
    using assms by (intro zdiv_mono1) simp_all
  ultimately show ?thesis
    using tileRange_floor [OF assms] by (simp add: floorTileRange_def TileSize_def)
qed

text \<open>
  Claim C5, amended. No width or height is validated, so the invariant holds only where
  the input gives it. For a region string whose numeric fields have at most 15 characters
  each (so that nothing overflows 64 bits), every Region returned without an error has a
  width and a height that are not negative; it satisfies the Region invariant (positive
  width and height, non-empty tile range) exactly when its width and height are both
  positive; and that is always so for the tile-range and single-tile encodings and for
  the default region.
\<close>

theorem region_invariant_short_fields:
  assumes "translate config = Inr r"
    and "\<forall>t\<in>set (fieldsOf config). length t \<le> 15"
  shows "0 \<le> width r \<and> 0 \<le> height r
       \<and> (regionInvariant r \<longleftrightarrow> 0 < width r \<and> 0 < height r)
       \<and> (Fullsize config = [] \<longrightarrow> regionInvariant r)"
proof -
  from region_short [OF assms]
  have b: "0 \<le> startX r" "startX r < 2000000000000000000"
    "0 \<le> startY r" "startY r < 2000000000000000000"
    "0 \<le> width r" "width r < 2000000000000000000"
    "0 \<le> height r" "height r < 2000000000000000000"
    and f: "Fullsize config = [] \<longrightarrow> 0 < width r \<and> 0 < height r"
    by simp_all
  have "regionInvariant r" if "0 < width r" "0 < height r"
  proof -
    have "startX r + width r \<le> 9223372036854775808" "startY r + height r \<le> 9223372036854775808"
      using b by linarith+
    from tileRange_nonempty [OF b(1) b(3) that this] that
    show ?thesis by (simp add: regionInvariant_def)
  qed
  then show ?thesis using b f by (auto simp: regionInvariant_def)
qed

text \<open>
  The claim as stated fails for the six-field encoding with a zero width and height, and
  for the eight-field encoding with two equal corners: both return a Region, without an
  error, whose width and height are 0.
\<close>

theorem region_invariant_short_fields_counterexample:
  "translate (flagDefaults \<lparr> Fullsize := ''0-0-0-0-0-0'' \<rparr>)
     = Inr \<lparr> startX = 0, startY = 0, width = 0, height = 0 \<rparr>
   \<and> \<not> regionInvariant \<lparr> startX = 0, startY = 0, width = 0, height = 0 \<rparr>
   \<and> translate (flagDefaults \<lparr> Fullsize := ''1-2-3-4-1-2-3-4'' \<rparr>)
     = Inr \<lparr> startX = 1003, startY = 2004, width = 0, height = 0 \<rparr>
   \<and> \<not> regionInvariant \<lparr> startX = 1003, startY = 2004, width = 0, height = 0 \<rparr>"
  by (simp add: translate_def flagDefaults_def parseFullsize_def Atoi_def isDigit_def
        mul64_def add64_def sub64_def int64_def TileSize_def regionInvariant_def)

theorem region_invariant_short_fields_witness:
  "translate (flagDefaults \<lparr> TileRange := ''1819-807_1818-806'' \<rparr>)
     = Inr \<lparr> startX = 1818000, startY = 806000, width = 2000, height = 2000 \<rparr>
   \<and> list_all (\<lambda>t. length t \<le> 15) (fieldsOf (flagDefaults \<lparr> TileRange := ''1819-807_1818-806'' \<rparr>))
   \<and> regionInvariant \<lparr> startX = 1818000, startY = 806000, width = 2000, height = 2000 \<rparr>"
proof -
  have t: "translate (flagDefaults \<lparr> TileRange := ''1819-807_1818-806'' \<rparr>)
     = Inr \<lparr> startX = 1818000, startY = 806000, width = 2000, height = 2000 \<rparr>"
    by (simp add: translate_def flagDefaults_def parseTileRange_def Atoi_def isDigit_def
        mul64_def add64_def sub64_def int64_def TileSize_def)
  have s: "\<forall>t\<in>set (fieldsOf (flagDefaults \<lparr> TileRange := ''1819-807_1818-806'' \<rparr>)). length t \<le> 15"
    by (simp add: fieldsOf_def flagDefaults_def)
  show ?thesis
    using region_invariant_short_fields [OF t s] t s
    by (simp add: list_all_iff flagDefaults_def)
qed

section \<open>Properties of the fetcher and the resolver\<close>

subsection \<open>Concrete fetches\<close>

lemma itoa_ex: "itoa 1818 = ''1818''" "itoa 11 = ''11''" "itoa 0 = ''0''" "itoa 806 = ''806''"
  by (simp_all add: itoa_def digitsOf.simps char_of_def)


lemma url_ex:
  "tileURL ''1'' 11 0 0 = ''https://wplace.eralyon.net/tiles/v1/11/0/0.png''"
  "tileURL ''1.2'' 11 0 0 = ''https://wplace.eralyon.net/tiles/v1.2/11/0/0.png''"
  by (simp_all add: tileURL_def prefixed_def HasPrefix_def itoa_ex)

lemma path_ex:
  "cachePath (cachingEnv known) ''1'' ''c'' 11 0 0 = ''c/v1_11_0_0.png''"
  "cachePath (cachingEnv known) ''1.2'' ''c'' 11 0 0 = ''c/v1.2_11_0_0.png''"
  by (simp_all add: cachePath_def cachingEnv_def flipEnv_def prefixed_def HasPrefix_def itoa_ex)

lemma enc_ex: "toyEncode (greyTile 7) = [7]"
  by (simp add: toyEncode_def greyTile_def)

lemma first_fetch:
  "downloadRawTile (cachingEnv [''https://wplace.eralyon.net/tiles/v1/11/0/0.png'']) ''1'' ''c'' 11 0 0 emptyWorld
    = (Inr (greyTile 7),
       \<lparr> files = (\<lambda>path. None)(''c/v1_11_0_0.png'' \<mapsto> Bytes [7]),
         requests = [''https://wplace.eralyon.net/tiles/v1/11/0/0.png''] \<rparr>)"
  by (simp add: downloadRawTile_def path_ex url_ex readCache_def emptyWorld_def Let_def)
     (simp add: cachingEnv_def flipEnv_def toyDecode_def enc_ex writeCache_def)

lemma second_fetch:
  "downloadRawTile (cachingEnv [''https://wplace.eralyon.net/tiles/v1/11/0/0.png'']) ''1'' ''c'' 11 0 0
      \<lparr> files = (\<lambda>path. None)(''c/v1_11_0_0.png'' \<mapsto> Bytes [7]),
         requests = [''https://wplace.eralyon.net/tiles/v1/11/0/0.png''] \<rparr>
    = (Inr (greyTile 7),
       \<lparr> files = (\<lambda>path. None)(''c/v1_11_0_0.png'' \<mapsto> Bytes [7]),
         requests = [''https://wplace.eralyon.net/tiles/v1/11/0/0.png''] \<rparr>)"
  by (simp add: downloadRawTile_def path_ex url_ex readCache_def emptyWorld_def Let_def)
     (simp add: cachingEnv_def flipEnv_def toyDecode_def)

lemma itoa_404: "itoa 404 = ''404''"
  by (simp add: itoa_def digitsOf.simps char_of_def)

lemma diff_fetch:
  "downloadRawTile (cachingEnv [''https://wplace.eralyon.net/tiles/v1/11/0/0.png'']) ''1.2'' ''c'' 11 0 0
      \<lparr> files = (\<lambda>path. None)(''c/v1_11_0_0.png'' \<mapsto> Bytes [7]),
         requests = [''https://wplace.eralyon.net/tiles/v1/11/0/0.png''] \<rparr>
    = (Inl (Errorf ''HTTP 404 for https://wplace.eralyon.net/tiles/v1.2/11/0/0.png''),
       \<lparr> files = (\<lambda>path. None)(''c/v1_11_0_0.png'' \<mapsto> Bytes [7]),
         requests = [''https://wplace.eralyon.net/tiles/v1/11/0/0.png'',
                     ''https://wplace.eralyon.net/tiles/v1.2/11/0/0.png''] \<rparr>)"
  by (simp add: downloadRawTile_def path_ex url_ex readCache_def Let_def)
     (simp add: cachingEnv_def flipEnv_def itoa_404)

lemma merged_ex:
  "downloadMergedTile (cachingEnv [''https://wplace.eralyon.net/tiles/v1/11/0/0.png'']) ''1.2'' ''c'' 11 0 0 emptyWorld
    = (Inr (greyTile 7),
       \<lparr> files = (\<lambda>path. None)(''c/v1_11_0_0.png'' \<mapsto> Bytes [7]),
         requests = [''https://wplace.eralyon.net/tiles/v1/11/0/0.png'',
                     ''https://wplace.eralyon.net/tiles/v1.2/11/0/0.png''] \<rparr>)"
  by (simp add: downloadMergedTile_def Contains_def first_fetch diff_fetch)


lemmas fetch_eval =
  downloadRawTile_def cachePath_def tileURL_def prefixed_def HasPrefix_def itoa_def
  digitsOf.simps char_of_def readCache_def writeCache_def cachingEnv_def flipEnv_def
  toyDecode_def toyEncode_def greyTile_def emptyWorld_def Let_def

lemma base_fail_ex:
  "downloadRawTile (cachingEnv []) ''1'' ''c'' 11 0 0 emptyWorld
    = (Inl (Errorf ''HTTP 404 for https://wplace.eralyon.net/tiles/v1/11/0/0.png''),
       \<lparr> files = (\<lambda>path. None),
         requests = [''https://wplace.eralyon.net/tiles/v1/11/0/0.png''] \<rparr>)"
  by (simp add: fetch_eval)

lemma diff_fail_ex:
  "downloadRawTile (cachingEnv []) ''1.2'' ''c'' 11 0 0
       \<lparr> files = (\<lambda>path. None),
         requests = [''https://wplace.eralyon.net/tiles/v1/11/0/0.png''] \<rparr>
    = (Inl (Errorf ''HTTP 404 for https://wplace.eralyon.net/tiles/v1.2/11/0/0.png''),
       \<lparr> files = (\<lambda>path. None),
         requests = [''https://wplace.eralyon.net/tiles/v1/11/0/0.png'',
                     ''https://wplace.eralyon.net/tiles/v1.2/11/0/0.png''] \<rparr>)"
  by (simp add: fetch_eval)

lemma both_fail_ex:
  "downloadMergedTile (cachingEnv []) ''1.2'' ''c'' 11 0 0 emptyWorld
    = (Inl (Errorf ''failed to download both base and diff for 1.2''),
       \<lparr> files = (\<lambda>path. None),
         requests = [''https://wplace.eralyon.net/tiles/v1/11/0/0.png'',
                     ''https://wplace.eralyon.net/tiles/v1.2/11/0/0.png''] \<rparr>)"
  by (simp add: downloadMergedTile_def Contains_def base_fail_ex diff_fail_ex)

subsection \<open>Cache hits\<close>


lemma cache_hit:
  assumes "files w (cachePath e v cacheDir zoom x y) = Some (Bytes bs)" "Decode e bs = Inr img"
  shows "downloadRawTile e v cacheDir zoom x y w = (Inr img, w)"
  using assms by (simp add: downloadRawTile_def readCache_def Let_def)

lemma cache_miss_persist:
  assumes "downloadRawTile e v cacheDir zoom x y w = (Inr img, w1)"
    and "readCache e w (cachePath e v cacheDir zoom x y) = None"
    and "MkdirAll e cacheDir" "Create e (cachePath e v cacheDir zoom x y)"
  shows "files w1 (cachePath e v cacheDir zoom x y) = Some (Bytes (Encode e img))
       \<and> requests w1 = requests w @ [tileURL v zoom x y]"
  using assms
  by (auto simp: downloadRawTile_def Let_def writeCache_def
           split: reply.splits if_splits sum.splits)

text \<open>
  Claim C9. When the cache path of a tile holds a file that decodes, the fetch returns the
  decoded image and leaves the world as it is: no request is sent. So a second fetch of
  the same tile, after a first one that left a decodable file at the cache path, returns
  from the cache and sends nothing. A first fetch that misses the cache and succeeds
  sends exactly one request, and leaves the encoded tile at the cache path whenever the
  directory and the file can be created.
\<close>

theorem cache_hit_no_network:
  "(files w0 (cachePath e v cacheDir zoom x y) = Some (Bytes bs) \<and> Decode e bs = Inr img
      \<longrightarrow> downloadRawTile e v cacheDir zoom x y w0 = (Inr img, w0))
   \<and> (downloadRawTile e v cacheDir zoom x y w = (Inr img1, w1)
        \<and> files w1 (cachePath e v cacheDir zoom x y) = Some (Bytes bs1)
        \<and> Decode e bs1 = Inr img2
      \<longrightarrow> downloadRawTile e v cacheDir zoom x y w1 = (Inr img2, w1))
   \<and> (downloadRawTile e v cacheDir zoom x y w = (Inr img1, w1)
        \<and> readCache e w (cachePath e v cacheDir zoom x y) = None
        \<and> MkdirAll e cacheDir \<and> Create e (cachePath e v cacheDir zoom x y)
      \<longrightarrow> files w1 (cachePath e v cacheDir zoom x y) = Some (Bytes (Encode e img1))
          \<and> requests w1 = requests w @ [tileURL v zoom x y])"
  using cache_hit cache_miss_persist by blast

theorem cache_hit_no_network_witness:
  "downloadRawTile (cachingEnv [''https://wplace.eralyon.net/tiles/v1/11/0/0.png''])
       ''1'' ''c'' 11 0 0 emptyWorld
     = (Inr (greyTile 7),
        \<lparr> files = (\<lambda>path. None)(''c/v1_11_0_0.png'' \<mapsto> Bytes [7]),
          requests = [''https://wplace.eralyon.net/tiles/v1/11/0/0.png''] \<rparr>)
   \<and> readCache (cachingEnv [''https://wplace.eralyon.net/tiles/v1/11/0/0.png'']) emptyWorld
         ''c/v1_11_0_0.png'' = None
   \<and> Decode (cachingEnv [''https://wplace.eralyon.net/tiles/v1/11/0/0.png'']) [7]
         = Inr (greyTile 7)
   \<and> downloadRawTile (cachingEnv [''https://wplace.eralyon.net/tiles/v1/11/0/0.png''])
       ''1'' ''c'' 11 0 0
       \<lparr> files = (\<lambda>path. None)(''c/v1_11_0_0.png'' \<mapsto> Bytes [7]),
         requests = [''https://wplace.eralyon.net/tiles/v1/11/0/0.png''] \<rparr>
     = (Inr (greyTile 7),
        \<lparr> files = (\<lambda>path. None)(''c/v1_11_0_0.png'' \<mapsto> Bytes [7]),
          requests = [''https://wplace.eralyon.net/tiles/v1/11/0/0.png''] \<rparr>)"
  using cache_hit_no_network
    [where e = "cachingEnv [''https://wplace.eralyon.net/tiles/v1/11/0/0.png'']"
       and v = "''1''" and cacheDir = "''c''" and zoom = 11 and x = 0 and y = 0
       and w = emptyWorld
       and ?w1.0 = "\<lparr> files = (\<lambda>path. None)(''c/v1_11_0_0.png'' \<mapsto> Bytes [7]),
                     requests = [''https://wplace.eralyon.net/tiles/v1/11/0/0.png''] \<rparr>"
       and ?w0.0 = "\<lparr> files = (\<lambda>path. None)(''c/v1_11_0_0.png'' \<mapsto> Bytes [7]),
                     requests = [''https://wplace.eralyon.net/tiles/v1/11/0/0.png''] \<rparr>"
       and ?img1.0 = "greyTile 7" and ?img2.0 = "greyTile 7" and img = "greyTile 7"
       and bs = "[7]" and ?bs1.0 = "[7]"]
    first_fetch second_fetch
  by (simp add: path_ex) (simp add: fetch_eval)

subsection \<open>The resolution policy\<close>

lemma Split_first: "Split s c ! 0 = takeWhile (\<lambda>x. x \<noteq> c) s"
proof (induction s)
  case Nil
  show ?case by simp
next
  case (Cons x s)
  then show ?case
    using Split_nonempty [of s c] by (cases "Split s c") auto
qed

lemma In_Intersect: "In x y (Intersect r s) = (In x y r \<and> In x y s)"
  by (auto simp: Intersect_def In_def Empty_def ZR_def Let_def)

lemma Empty_iff: "Empty r \<longleftrightarrow> (\<forall>x y. \<not> In x y r)"
proof
  assume "Empty r"
  then show "\<forall>x y. \<not> In x y r" by (auto simp: Empty_def In_def)
next
  assume a: "\<forall>x y. \<not> In x y r"
  show "Empty r"
  proof (rule ccontr)
    assume "\<not> Empty r"
    then have "In (MinX r) (MinY r) r" by (simp add: Empty_def In_def)
    with a show False by blast
  qed
qed

lemma Draw_Bounds: "Bounds (Draw e dst r src sp op) = Bounds dst"
  by (simp add: Draw_def Let_def)

lemma Draw_Pix:
  "Pix (Draw e dst r src sp op) x y =
     (if In x y r \<and> In x y (Bounds dst)
         \<and> In (x - MinX r + fst sp) (y - MinY r + snd sp) (Bounds src)
      then (case op of Src \<Rightarrow> storeRGBA (Pix src (x - MinX r + fst sp) (y - MinY r + snd sp))
            | Over \<Rightarrow> OverPixel e (Pix src (x - MinX r + fst sp) (y - MinY r + snd sp))
                        (Pix dst x y))
      else Pix dst x y)"
proof -
  let ?sb = "Bounds src"
  let ?t = "\<lparr> MinX = MinX ?sb + (MinX r - fst sp), MinY = MinY ?sb + (MinY r - snd sp),
             MaxX = MaxX ?sb + (MinX r - fst sp), MaxY = MaxY ?sb + (MinY r - snd sp) \<rparr>"
  let ?r2 = "Intersect (Intersect r (Bounds dst)) ?t"
  have t: "In x y ?t = In (x - MinX r + fst sp) (y - MinY r + snd sp) ?sb"
    by (auto simp: In_def)
  have r2: "In x y ?r2 = (In x y r \<and> In x y (Bounds dst)
       \<and> In (x - MinX r + fst sp) (y - MinY r + snd sp) ?sb)"
    by (simp add: In_Intersect t)
  show ?thesis
  proof (cases "Empty ?r2")
    case True
    then have "\<not> In x y ?r2" by (simp add: Empty_iff)
    then have n: "\<not> (In x y r \<and> In x y (Bounds dst)
       \<and> In (x - MinX r + fst sp) (y - MinY r + snd sp) ?sb)"
      unfolding r2 .
    have "Draw e dst r src sp op = dst" using True by (simp add: Draw_def Let_def)
    then show ?thesis using n by auto
  next
    case False
    then show ?thesis using r2 by (simp add: Draw_def Let_def)
  qed
qed

lemma merged_sourceOver:
  "Draw e (Draw e (NewRGBA (Bounds b)) (Bounds b) b (MinX (Bounds b), MinY (Bounds b)) Src)
      (Bounds b) d (MinX (Bounds b), MinY (Bounds b)) Over
   = sourceOver e b d"
proof -
  let ?m1 = "Draw e (NewRGBA (Bounds b)) (Bounds b) b (MinX (Bounds b), MinY (Bounds b)) Src"
  let ?m2 = "Draw e ?m1 (Bounds b) d (MinX (Bounds b), MinY (Bounds b)) Over"
  have bm1: "Bounds ?m1 = Bounds b" by (simp add: Draw_Bounds NewRGBA_def)
  have p1: "Pix ?m1 x y = (if In x y (Bounds b) then storeRGBA (Pix b x y) else (0, 0, 0, 0))"
    for x y
    by (simp add: Draw_Pix NewRGBA_def)
  have "Pix ?m2 = Pix (sourceOver e b d)"
  proof (intro ext)
    fix x y
    show "Pix ?m2 x y = Pix (sourceOver e b d) x y"
      unfolding Draw_Pix [of e ?m1] bm1 p1 by (simp add: sourceOver_def)
  qed
  moreover have "Bounds ?m2 = Bounds (sourceOver e b d)"
    by (simp add: Draw_Bounds NewRGBA_def sourceOver_def)
  ultimately show ?thesis by simp
qed

text \<open>
  Claim C3. Version resolution follows the availability policy of the specification. For
  an identifier without a separator the result is that of the fetcher, unchanged.
  Otherwise the base (the text before the first separator) is fetched, then the full
  identifier as the diff; the result is an error naming the version when both fail, the
  base image when only the diff fails, the diff image when only the base fails, and the
  base with the diff composited over it, pixel for pixel, when both succeed.
\<close>

theorem resolve_policy:
  "downloadMergedTile e version cacheDir zoom x y w = resolve e version cacheDir zoom x y w"
  by (simp add: downloadMergedTile_def resolve_def Contains_def Split_first Let_def
        merged_sourceOver split: prod.splits sum.splits)

theorem resolve_policy_witness:
  "fst (resolve (cachingEnv [''https://wplace.eralyon.net/tiles/v1/11/0/0.png''])
          ''1.2'' ''c'' 11 0 0 emptyWorld) = Inr (greyTile 7)
   \<and> fst (resolve (cachingEnv []) ''1.2'' ''c'' 11 0 0 emptyWorld)
       = Inl (Errorf ''failed to download both base and diff for 1.2'')"
  by (simp add: resolve_policy [symmetric] merged_ex both_fail_ex)

section \<open>Properties of the canvas compositor\<close>

lemma resolveInOrder_append:
  "resolveInOrder e config v reg (ts @ us) c w =
     (case resolveInOrder e config v reg ts c w of
        (c', False, w') \<Rightarrow> (c', False, w')
      | (c', True, w') \<Rightarrow> resolveInOrder e config v reg us c' w')"
  by (induction ts arbitrary: c w) (auto split: prod.splits sum.splits bool.splits)

lemma tileColumn_in_order:
  "tileColumn e config v reg tx ty maxY c w =
     resolveInOrder e config v reg (map (\<lambda>ty. (tx, ty)) [ty..maxY]) c w"
proof (induction e config v reg tx ty maxY c w rule: tileColumn.induct)
  case (1 e config v reg tx ty maxY c w)
  show ?case
  proof (cases "ty \<le> maxY")
    case True
    then have u: "[ty..maxY] = ty # [ty + 1..maxY]" by (simp add: upto_rec1)
    show ?thesis
      using True "1.IH"
      by (subst tileColumn.simps) (auto simp: u split: prod.splits sum.splits)
  next
    case False
    then show ?thesis by (subst tileColumn.simps) simp
  qed
qed

lemma tileRows_in_order:
  "tileRows e config v reg tr tx c w =
     resolveInOrder e config v reg
       (concat (map (\<lambda>tx. map (\<lambda>ty. (tx, ty)) [minTileY tr..maxTileY tr]) [tx..maxTileX tr]))
       c w"
proof (induction e config v reg tr tx c w rule: tileRows.induct)
  case (1 e config v reg tr tx c w)
  show ?case
  proof (cases "tx \<le> maxTileX tr")
    case True
    then have u: "[tx..maxTileX tr] = tx # [tx + 1..maxTileX tr]" by (simp add: upto_rec1)
    show ?thesis
      using True "1.IH"
      by (subst tileRows.simps)
         (auto simp: u resolveInOrder_append tileColumn_in_order split: prod.splits bool.splits)
  next
    case False
    then show ?thesis by (subst tileRows.simps) simp
  qed
qed

lemma tileRows_tilesInOrder:
  "tileRows e config v reg tr (minTileX tr) c w
     = resolveInOrder e config v reg (tilesInOrder tr) c w"
  by (simp add: tileRows_in_order tilesInOrder_def)

lemma resolveInOrder_first_failure:
  assumes "resolveInOrder e config v reg pre c w = (c1, True, w1)"
    and "downloadMergedTile e v (CacheDir config) (Zoom config) tx ty w1 = (Inl err, w2)"
  shows "resolveInOrder e config v reg (pre @ (tx, ty) # post) c w = (c1, False, w2)"
  using assms by (simp add: resolveInOrder_append)

lemma resolveInOrder_invalid:
  "resolveInOrder e config v reg ts c w = (c', False, w') \<Longrightarrow>
     \<exists>pre t post w1 err.
        ts = pre @ t # post
      \<and> resolveInOrder e config v reg pre c w = (c', True, w1)
      \<and> downloadMergedTile e v (CacheDir config) (Zoom config) (fst t) (snd t) w1 = (Inl err, w')"
proof (induction ts arbitrary: c w)
  case Nil
  then show ?case by simp
next
  case (Cons t ts)
  show ?case
  proof (cases "downloadMergedTile e v (CacheDir config) (Zoom config) (fst t) (snd t) w")
    case (Pair res w0)
    show ?thesis
    proof (cases res)
      case (Inl err)
      with Pair Cons.prems have "c' = c" "w' = w0" by simp_all
      with Pair Inl have "t # ts = [] @ t # ts
        \<and> resolveInOrder e config v reg [] c w = (c', True, w)
        \<and> downloadMergedTile e v (CacheDir config) (Zoom config) (fst t) (snd t) w = (Inl err, w')"
        by simp
      then show ?thesis by blast
    next
      case (Inr img)
      with Pair Cons.prems
      have "resolveInOrder e config v reg ts (blit e reg (fst t) (snd t) img c) w0 = (c', False, w')"
        by simp
      from Cons.IH [OF this] obtain pre t' post w1 err where
        "ts = pre @ t' # post"
        "resolveInOrder e config v reg pre (blit e reg (fst t) (snd t) img c) w0 = (c', True, w1)"
        "downloadMergedTile e v (CacheDir config) (Zoom config) (fst t') (snd t') w1 = (Inl err, w')"
        by blast
      with Pair Inr have "t # ts = (t # pre) @ t' # post
        \<and> resolveInOrder e config v reg (t # pre) c w = (c', True, w1)
        \<and> downloadMergedTile e v (CacheDir config) (Zoom config) (fst t') (snd t') w1 = (Inl err, w')"
        by simp
      then show ?thesis by blast
    qed
  qed
qed

lemma processVersion_invalid:
  assumes "tileRows e config v reg tr (minTileX tr)
             (NewRGBA (Rect 0 0 (width reg) (height reg))) (outside acc) = (c, False, w)"
  shows "processVersion e config reg tr acc v = acc \<lparr> outside := w \<rparr>"
  using assms by (simp add: processVersion_def)

text \<open>
  Claim C2. Canvas building is all-or-nothing. Let the tiles of the range, in the order
  of the loops, be \<open>pre\<close>, then the tile \<open>(tx, ty)\<close>, then \<open>post\<close>; let the tiles
  of \<open>pre\<close> resolve, and the tile \<open>(tx, ty)\<close> fail in the world \<open>w1\<close> that they leave.
  Then the tile loops end with \<open>versionValid = false\<close> in the world \<open>w2\<close> that the
  failing fetch leaves, so no tile of \<open>post\<close> is fetched; and the round of the version
  loop changes nothing but the world: the counters, the previous canvas and the count of
  successes are as before, and the partial canvas is dropped.
\<close>

theorem canvas_all_or_nothing:
  assumes "tilesInOrder tr = pre @ (tx, ty) # post"
    and "resolveInOrder e config v reg pre (NewRGBA (Rect 0 0 (width reg) (height reg)))
           (outside acc) = (c1, True, w1)"
    and "downloadMergedTile e v (CacheDir config) (Zoom config) tx ty w1 = (Inl err, w2)"
  shows "tileRows e config v reg tr (minTileX tr)
           (NewRGBA (Rect 0 0 (width reg) (height reg))) (outside acc) = (c1, False, w2)
       \<and> processVersion e config reg tr acc v = acc \<lparr> outside := w2 \<rparr>
       \<and> changes (processVersion e config reg tr acc v) = changes acc
       \<and> prevCombined (processVersion e config reg tr acc v) = prevCombined acc
       \<and> successCount (processVersion e config reg tr acc v) = successCount acc"
proof -
  have "tileRows e config v reg tr (minTileX tr)
           (NewRGBA (Rect 0 0 (width reg) (height reg))) (outside acc) = (c1, False, w2)"
    using resolveInOrder_first_failure [OF assms(2) assms(3)] assms(1)
    by (simp add: tileRows_tilesInOrder)
  then show ?thesis by (simp add: processVersion_invalid)
qed

lemma itoa_1: "itoa 1 = ''1''"
  by (simp add: itoa_def digitsOf.simps char_of_def)

theorem canvas_all_or_nothing_witness:
  "tilesInOrder (tileRange \<lparr> startX = 999, startY = 0, width = 2, height = 1 \<rparr>)
     = [(0, 0)] @ (1, 0) # []
   \<and> resolveInOrder (cachingEnv [tileURL ''1'' 11 0 0]) flagDefaults ''1''
         \<lparr> startX = 999, startY = 0, width = 2, height = 1 \<rparr> [(0, 0)]
         (NewRGBA (Rect 0 0 2 1)) emptyWorld
       = (blit (cachingEnv [tileURL ''1'' 11 0 0])
            \<lparr> startX = 999, startY = 0, width = 2, height = 1 \<rparr> 0 0 (greyTile 7)
            (NewRGBA (Rect 0 0 2 1)),
          True,
          \<lparr> files = (\<lambda>path. None)(''tile_cache/v1_11_0_0.png'' \<mapsto> Bytes [7]),
            requests = [''https://wplace.eralyon.net/tiles/v1/11/0/0.png''] \<rparr>)
   \<and> downloadMergedTile (cachingEnv [tileURL ''1'' 11 0 0]) ''1'' ''tile_cache'' 11 1 0
         \<lparr> files = (\<lambda>path. None)(''tile_cache/v1_11_0_0.png'' \<mapsto> Bytes [7]),
           requests = [''https://wplace.eralyon.net/tiles/v1/11/0/0.png''] \<rparr>
       = (Inl (Errorf ''HTTP 404 for https://wplace.eralyon.net/tiles/v1/11/1/0.png''),
          \<lparr> files = (\<lambda>path. None)(''tile_cache/v1_11_0_0.png'' \<mapsto> Bytes [7]),
            requests = [''https://wplace.eralyon.net/tiles/v1/11/0/0.png'',
                        ''https://wplace.eralyon.net/tiles/v1/11/1/0.png''] \<rparr>)
   \<and> processVersion (cachingEnv [tileURL ''1'' 11 0 0]) flagDefaults
         \<lparr> startX = 999, startY = 0, width = 2, height = 1 \<rparr>
         (tileRange \<lparr> startX = 999, startY = 0, width = 2, height = 1 \<rparr>)
         \<lparr> changes = [[0, 0]], prevCombined = None, successCount = 0, outside = emptyWorld \<rparr>
         ''1''
       = \<lparr> changes = [[0, 0]], prevCombined = None, successCount = 0,
           outside =
             \<lparr> files = (\<lambda>path. None)(''tile_cache/v1_11_0_0.png'' \<mapsto> Bytes [7]),
               requests = [''https://wplace.eralyon.net/tiles/v1/11/0/0.png'',
                           ''https://wplace.eralyon.net/tiles/v1/11/1/0.png''] \<rparr> \<rparr>"
proof -
  let ?E = "cachingEnv [tileURL ''1'' 11 0 0]"
  let ?reg = "\<lparr> startX = 999, startY = 0, width = 2, height = 1 \<rparr>"
  let ?W1 = "\<lparr> files = (\<lambda>path. None)(''tile_cache/v1_11_0_0.png'' \<mapsto> Bytes [7]),
            requests = [''https://wplace.eralyon.net/tiles/v1/11/0/0.png''] \<rparr>"
  let ?W2 = "\<lparr> files = (\<lambda>path. None)(''tile_cache/v1_11_0_0.png'' \<mapsto> Bytes [7]),
            requests = [''https://wplace.eralyon.net/tiles/v1/11/0/0.png'',
                        ''https://wplace.eralyon.net/tiles/v1/11/1/0.png''] \<rparr>"
  let ?acc = "\<lparr> changes = [[0, 0]], prevCombined = None, successCount = 0,
                outside = emptyWorld \<rparr>"
  have h1: "tilesInOrder (tileRange ?reg) = [(0, 0)] @ (1, 0) # []"
    by (simp add: tilesInOrder_def tileRange_def quo64_def add64_def sub64_def int64_def
          TileSize_def signed_divide_int_def upto.simps)
  have f1: "downloadMergedTile ?E ''1'' ''tile_cache'' 11 0 0 emptyWorld = (Inr (greyTile 7), ?W1)"
    by (simp add: downloadMergedTile_def Contains_def fetch_eval)
  have h2: "resolveInOrder ?E flagDefaults ''1'' ?reg [(0, 0)] (NewRGBA (Rect 0 0 2 1)) emptyWorld
      = (blit ?E ?reg 0 0 (greyTile 7) (NewRGBA (Rect 0 0 2 1)), True, ?W1)"
    using f1 by (simp add: flagDefaults_def)
  have h3: "downloadMergedTile ?E ''1'' ''tile_cache'' 11 1 0 ?W1
      = (Inl (Errorf ''HTTP 404 for https://wplace.eralyon.net/tiles/v1/11/1/0.png''), ?W2)"
    by (simp add: downloadMergedTile_def Contains_def fetch_eval itoa_404)
  have h2': "resolveInOrder ?E flagDefaults ''1'' ?reg [(0, 0)]
       (NewRGBA (Rect 0 0 (width ?reg) (height ?reg))) (outside ?acc)
      = (blit ?E ?reg 0 0 (greyTile 7) (NewRGBA (Rect 0 0 2 1)), True, ?W1)"
    using h2 by simp
  have h3': "downloadMergedTile ?E ''1'' (CacheDir flagDefaults) (Zoom flagDefaults) 1 0 ?W1
      = (Inl (Errorf ''HTTP 404 for https://wplace.eralyon.net/tiles/v1/11/1/0.png''), ?W2)"
    using h3 by (simp add: flagDefaults_def)
  show ?thesis
    using canvas_all_or_nothing [OF h1 h2' h3'] h1 h2 h3 by simp
qed

section \<open>Properties of the change accumulator\<close>

lemma compareRow_length [simp]: "length (compareRow c p wd y x row) = length row"
proof (induction c p wd y x row rule: compareRow.induct)
  case (1 c p wd y x row)
  then show ?case by (subst compareRow.simps) auto
qed


lemma compareRows_length [simp]: "length (compareRows c p wd ht y chg) = length chg"
proof (induction c p wd ht y chg rule: compareRows.induct)
  case (1 c p wd ht y chg)
  then show ?case by (subst compareRows.simps) auto
qed












subsection \<open>A run that alternates between two canvases\<close>













section \<open>Properties of the renderer\<close>

subsection \<open>Rounding to float64\<close>

lemma binadeUp_bracket:
  "1 \<le> x \<Longrightarrow> 2 powi binadeUp x \<le> x \<and> x < 2 powi (binadeUp x + 1)"
proof (induction x rule: binadeUp.induct)
  case (1 x)
  show ?case
  proof (cases "x < 2")
    case True
    with "1.prems" show ?thesis by (subst (1 2) binadeUp.simps) simp
  next
    case False
    then have "1 \<le> x / 2" by simp
    from "1.IH" [OF False this]
    have ih: "2 powi binadeUp (x / 2) \<le> x / 2" "x / 2 < 2 powi (binadeUp (x / 2) + 1)"
      by simp_all
    have e: "binadeUp x = binadeUp (x / 2) + 1"
      using False by (subst binadeUp.simps) simp
    have p: "(2::rat) powi (k + 1) = 2 powi k * 2" for k
      by (simp add: power_int_add)
    show ?thesis
      unfolding e p using ih by (simp add: p)
  qed
qed

lemma binadeDown_bracket:
  "0 < x \<Longrightarrow> x < 1 \<Longrightarrow> 2 powi binadeDown x \<le> x \<and> x < 2 powi (binadeDown x + 1)"
proof (induction x rule: binadeDown.induct)
  case (1 x)
  have e: "binadeDown x = binadeDown (x * 2) - 1"
    using "1.prems" by (subst binadeDown.simps) simp
  have p: "(2::rat) powi (k - 1) = 2 powi k / 2" for k
    by (simp add: power_int_diff)
  show ?case
  proof (cases "x * 2 < 1")
    case True
    from "1.prems" have "\<not> (x \<le> 0 \<or> 1 \<le> x)" "0 < x * 2" by simp_all
    from "1.IH" [OF this True]
    have "2 powi binadeDown (x * 2) \<le> x * 2" "x * 2 < 2 powi (binadeDown (x * 2) + 1)"
      by simp_all
    moreover have "(2::rat) powi (binadeDown (x * 2) + 1) = 2 powi binadeDown (x * 2) * 2"
      by (simp add: power_int_add)
    ultimately show ?thesis unfolding e by (simp add: p)
  next
    case False
    then have "binadeDown (x * 2) = 0" by (subst binadeDown.simps) simp
    with False "1.prems" show ?thesis unfolding e by simp
  qed
qed

lemma binade_bracket:
  "0 < x \<Longrightarrow> 2 powi binade x \<le> x \<and> x < 2 powi (binade x + 1)"
  using binadeUp_bracket [of x] binadeDown_bracket [of x]
  by (cases "1 \<le> x") (simp_all add: binade_def)


lemma roundEven_bounds: "\<lfloor>y\<rfloor> \<le> roundEven y \<and> roundEven y \<le> \<lfloor>y\<rfloor> + 1"
  by (simp add: roundEven_def Let_def)

lemma roundEven_of_int [simp]: "roundEven (of_int n) = n"
  by (simp add: roundEven_def Let_def)

lemma roundEven_mono:
  assumes "a \<le> b"
  shows "roundEven a \<le> roundEven b"
proof (cases "\<lfloor>a\<rfloor> < \<lfloor>b\<rfloor>")
  case True
  with roundEven_bounds [of a] roundEven_bounds [of b] show ?thesis by linarith
next
  case False
  with floor_mono [OF assms] have f: "\<lfloor>a\<rfloor> = \<lfloor>b\<rfloor>" by simp
  have "a - of_int \<lfloor>b\<rfloor> \<le> b - of_int \<lfloor>b\<rfloor>" using assms by simp
  then show ?thesis by (auto simp: roundEven_def Let_def f)
qed

lemma roundEven_le: "y \<le> of_int n \<Longrightarrow> roundEven y \<le> n"
  using roundEven_mono [of y "of_int n"] by simp

lemma roundEven_ge: "of_int n \<le> y \<Longrightarrow> n \<le> roundEven y"
  using roundEven_mono [of "of_int n" y] by simp

lemma fl64_zero [simp]: "fl64 0 = 0"
  by (simp add: fl64_def)

lemma fl64_positive:
  assumes "0 < x"
  shows "fl64 x = of_int (roundEven (x / 2 powi (binade x - 52))) * 2 powi (binade x - 52)"
  using assms by (simp add: fl64_def Let_def)

lemma quantum_positive: "0 < (2::rat) powi k"
  by simp

lemma fl64_lower:
  assumes "0 < x"
  shows "2 powi binade x \<le> fl64 x"
proof -
  let ?q = "(2::rat) powi (binade x - 52)"
  have q: "0 < ?q" by simp
  have e: "(2::rat) powi binade x = of_int (2 ^ 52) * ?q"
    by (simp add: power_int_diff)
  have "2 powi binade x \<le> x" using binade_bracket [OF assms] by simp
  then have "of_int (2 ^ 52) * ?q \<le> x" by (simp only: e)
  then have "of_int (2 ^ 52) \<le> x / ?q" using q by (simp add: pos_le_divide_eq)
  then have "2 ^ 52 \<le> roundEven (x / ?q)" by (rule roundEven_ge)
  then have "(of_int (2 ^ 52) :: rat) \<le> of_int (roundEven (x / ?q))" by (simp only: of_int_le_iff)
  then have "of_int (2 ^ 52) * ?q \<le> of_int (roundEven (x / ?q)) * ?q"
    using q by (intro mult_right_mono) simp_all
  then show ?thesis by (simp only: e fl64_positive [OF assms])
qed

lemma fl64_upper:
  assumes "0 < x"
  shows "fl64 x \<le> 2 powi (binade x + 1)"
proof -
  let ?q = "(2::rat) powi (binade x - 52)"
  have q: "0 < ?q" by simp
  have "binade x + 1 = 53 + (binade x - 52)" by simp
  then have "(2::rat) powi (binade x + 1) = 2 powi (53 + (binade x - 52))" by (rule arg_cong)
  also have "\<dots> = 2 powi 53 * ?q" by (subst power_int_add) simp_all
  finally have e: "(2::rat) powi (binade x + 1) = of_int (2 ^ 53) * ?q" by simp
  have "x < 2 powi (binade x + 1)" using binade_bracket [OF assms] by simp
  then have "x \<le> of_int (2 ^ 53) * ?q" by (simp only: e)
  then have "x / ?q \<le> of_int (2 ^ 53)" using q by (simp add: pos_divide_le_eq)
  then have "roundEven (x / ?q) \<le> 2 ^ 53" by (rule roundEven_le)
  then have "(of_int (roundEven (x / ?q)) :: rat) \<le> of_int (2 ^ 53)" by (simp only: of_int_le_iff)
  then have "of_int (roundEven (x / ?q)) * ?q \<le> of_int (2 ^ 53) * ?q"
    using q by (intro mult_right_mono) simp_all
  then show ?thesis by (simp only: e fl64_positive [OF assms])
qed

lemma fl64_pos: "0 < x \<Longrightarrow> 0 < fl64 x"
  using fl64_lower [of x] quantum_positive [of "binade x"] by linarith

lemma binade_mono:
  assumes "0 < x" "x \<le> y"
  shows "binade x \<le> binade y"
proof (rule ccontr)
  assume "\<not> binade x \<le> binade y"
  then have "binade y + 1 \<le> binade x" by simp
  then have "(2::rat) powi (binade y + 1) \<le> 2 powi binade x"
    by (intro power_int_increasing) simp_all
  moreover have "2 powi binade x \<le> x" using binade_bracket [OF assms(1)] by simp
  moreover have "y < 2 powi (binade y + 1)" using binade_bracket [of y] assms by simp
  ultimately show False using assms(2) by linarith
qed

lemma fl64_mono_pos:
  assumes "0 < x" "x \<le> y"
  shows "fl64 x \<le> fl64 y"
proof (cases "binade x = binade y")
  case True
  let ?q = "(2::rat) powi (binade y - 52)"
  have q: "0 < ?q" by simp
  have y: "0 < y" using assms by simp
  have "x / ?q \<le> y / ?q" using assms q by (simp add: divide_right_mono)
  then have "roundEven (x / ?q) \<le> roundEven (y / ?q)" by (rule roundEven_mono)
  then have "(of_int (roundEven (x / ?q)) :: rat) \<le> of_int (roundEven (y / ?q))"
    by (simp only: of_int_le_iff)
  then have "of_int (roundEven (x / ?q)) * ?q \<le> of_int (roundEven (y / ?q)) * ?q"
    using q by (intro mult_right_mono) simp_all
  then show ?thesis by (simp only: fl64_positive [OF assms(1)] fl64_positive [OF y] True)
next
  case False
  have y: "0 < y" using assms by simp
  from False binade_mono [OF assms] have "binade x + 1 \<le> binade y" by simp
  then have "(2::rat) powi (binade x + 1) \<le> 2 powi binade y"
    by (intro power_int_increasing) simp_all
  with fl64_upper [OF assms(1)] fl64_lower [OF y] show ?thesis by linarith
qed

lemma fl64_mono:
  assumes "0 \<le> x" "x \<le> y"
  shows "fl64 x \<le> fl64 y"
proof (cases "x = 0")
  case True
  then show ?thesis using assms fl64_pos [of y] by (cases "y = 0") auto
next
  case False
  with assms show ?thesis by (intro fl64_mono_pos) simp_all
qed

lemma fl64_fixed:
  "fl64 (1 / 4) = 1 / 4" "fl64 (1 / 2) = 1 / 2" "fl64 (3 / 4) = 3 / 4" "fl64 1 = 1"
  "fl64 255 = 255"
  by (simp_all add: fl64_def binade_def binadeUp.simps binadeDown.simps roundEven_def Let_def)

subsection \<open>The gradient stays in range\<close>

lemma fl64_unit:
  assumes "0 \<le> x" "x \<le> 1"
  shows "0 \<le> fl64 x \<and> fl64 x \<le> 1"
  using fl64_mono [of 0 x] fl64_mono [of x 1] assms by (simp add: fl64_fixed)

lemma fl64_byte:
  assumes "0 \<le> x" "x \<le> 255"
  shows "0 \<le> fl64 x \<and> fl64 x \<le> 255"
  using fl64_mono [of 0 x] fl64_mono [of x 255] assms by (simp add: fl64_fixed)

lemma fl64_quarter:
  assumes "0 \<le> x" "x \<le> 1 / 4"
  shows "0 \<le> fl64 x \<and> fl64 x \<le> 1 / 4"
  using fl64_mono [of 0 x] fl64_mono [of x "1 / 4"] assms by (simp add: fl64_fixed)

lemma ramp_range:
  assumes "0 \<le> d" "d \<le> 1 / 4"
  shows "0 \<le> fl64 (fl64 (d / (1 / 4)) * 255) \<and> fl64 (fl64 (d / (1 / 4)) * 255) \<le> 255"
proof -
  have "0 \<le> d / (1 / 4)" "d / (1 / 4) \<le> 1" using assms by simp_all
  from fl64_unit [OF this] have t: "0 \<le> fl64 (d / (1 / 4))" "fl64 (d / (1 / 4)) \<le> 1"
    by simp_all
  then have "0 \<le> fl64 (d / (1 / 4)) * 255" "fl64 (d / (1 / 4)) * 255 \<le> 255" by simp_all
  then show ?thesis by (rule fl64_byte)
qed

lemma complement_range:
  assumes "0 \<le> u" "u \<le> 255"
  shows "0 \<le> fl64 (255 - u) \<and> fl64 (255 - u) \<le> 255"
  using assms by (intro fl64_byte) simp_all

lemma heatChannels_range:
  assumes "0 < ratio" "ratio \<le> 1"
  shows "case heatChannels ratio of
           (r, g, b) \<Rightarrow> 0 \<le> r \<and> r \<le> 255 \<and> 0 \<le> g \<and> g \<le> 255 \<and> 0 \<le> b \<and> b \<le> 255"
proof -
  consider (a) "ratio < 1 / 4" | (b) "1 / 4 \<le> ratio" "ratio < 1 / 2"
    | (c) "1 / 2 \<le> ratio" "ratio < 3 / 4" | (d) "3 / 4 \<le> ratio"
    by linarith
  then show ?thesis
  proof cases
    case a
    then have "0 \<le> ratio" "ratio \<le> 1 / 4" using assms by simp_all
    from ramp_range [OF this] a show ?thesis by (simp add: heatChannels_def)
  next
    case b
    then have "0 \<le> ratio - 1 / 4" "ratio - 1 / 4 \<le> 1 / 4" by simp_all
    from fl64_quarter [OF this]
    have "0 \<le> fl64 (ratio - 1 / 4)" "fl64 (ratio - 1 / 4) \<le> 1 / 4" by simp_all
    from ramp_range [OF this]
    have u: "0 \<le> fl64 (fl64 (fl64 (ratio - 1 / 4) / (1 / 4)) * 255)"
      "fl64 (fl64 (fl64 (ratio - 1 / 4) / (1 / 4)) * 255) \<le> 255" by simp_all
    from complement_range [OF u] u b show ?thesis by (simp add: heatChannels_def)
  next
    case c
    then have "0 \<le> ratio - 1 / 2" "ratio - 1 / 2 \<le> 1 / 4" by simp_all
    from fl64_quarter [OF this]
    have "0 \<le> fl64 (ratio - 1 / 2)" "fl64 (ratio - 1 / 2) \<le> 1 / 4" by simp_all
    from ramp_range [OF this] c show ?thesis by (simp add: heatChannels_def)
  next
    case d
    then have "0 \<le> ratio - 3 / 4" "ratio - 3 / 4 \<le> 1 / 4" using assms by simp_all
    from fl64_quarter [OF this]
    have "0 \<le> fl64 (ratio - 3 / 4)" "fl64 (ratio - 3 / 4) \<le> 1 / 4" by simp_all
    from ramp_range [OF this]
    have u: "0 \<le> fl64 (fl64 (fl64 (ratio - 3 / 4) / (1 / 4)) * 255)"
      "fl64 (fl64 (fl64 (ratio - 3 / 4) / (1 / 4)) * 255) \<le> 255" by simp_all
    from complement_range [OF u] d show ?thesis by (simp add: heatChannels_def)
  qed
qed

lemma fl64_quotient:
  fixes a b :: nat
  assumes "0 < a" "a \<le> b"
  shows "0 < fl64 (of_nat a / of_nat b) \<and> fl64 (of_nat a / of_nat b) \<le> 1"
proof -
  let ?q = "(of_nat a :: rat) / of_nat b"
  have "0 < ?q" using assms by simp
  moreover have "?q \<le> 1" using assms by simp
  ultimately show ?thesis
    using fl64_pos [of ?q] fl64_mono [of ?q 1] by (simp add: fl64_fixed)
qed

lemma heatRatio_range:
  assumes "val \<noteq> 0" "val \<le> mx"
  shows "mx \<noteq> 0 \<and> 0 < heatRatio val mx \<and> heatRatio val mx \<le> 1"
proof -
  from assms(1) have v: "0 < unat val" by (simp add: unat_gt_0)
  from assms(2) have le: "unat val \<le> unat mx" by (simp add: word_le_nat_alt)
  with v have "0 < unat mx" by simp
  then have m: "mx \<noteq> 0" by (simp add: unat_gt_0)
  from fl64_quotient [OF v le] m show ?thesis
    unfolding heatRatio_def by blast
qed

lemma uint8_Round:
  assumes "0 \<le> c" "c \<le> 255"
  shows "uint8 (Round c) = Some (of_int \<lfloor>c + 1 / 2\<rfloor>)"
proof -
  have "0 \<le> \<lfloor>c + 1 / 2\<rfloor>" using assms by (simp add: le_floor_iff)
  moreover have "\<lfloor>c + 1 / 2\<rfloor> < 256" using assms by (simp add: floor_less_iff)
  ultimately have "(0::rat) \<le> of_int \<lfloor>c + 1 / 2\<rfloor>" "(of_int \<lfloor>c + 1 / 2\<rfloor> :: rat) < 256"
    by simp_all
  moreover from this have "(- 1 :: rat) < of_int \<lfloor>c + 1 / 2\<rfloor>" by linarith
  ultimately show ?thesis using assms by (simp add: uint8_def Round_def)
qed

lemma getHeatColor_defined:
  assumes "val \<le> mx"
  shows "\<exists>r g b. getHeatColor val mx = Some (RGBA r g b 255)"
proof (cases "val = 0")
  case True
  then show ?thesis by (simp add: getHeatColor_def)
next
  case False
  from heatRatio_range [OF False assms]
  have m: "mx \<noteq> 0" and r: "0 < heatRatio val mx" "heatRatio val mx \<le> 1" by simp_all
  obtain cr cg cb where ch: "heatChannels (heatRatio val mx) = (cr, cg, cb)"
    by (cases "heatChannels (heatRatio val mx)") auto
  from heatChannels_range [OF r] ch
  have "0 \<le> cr" "cr \<le> 255" "0 \<le> cg" "cg \<le> 255" "0 \<le> cb" "cb \<le> 255" by simp_all
  then have "uint8 (Round cr) = Some (of_int \<lfloor>cr + 1 / 2\<rfloor>)"
    "uint8 (Round cg) = Some (of_int \<lfloor>cg + 1 / 2\<rfloor>)"
    "uint8 (Round cb) = Some (of_int \<lfloor>cb + 1 / 2\<rfloor>)"
    by (simp_all add: uint8_Round)
  with False m ch show ?thesis by (simp add: getHeatColor_def)
qed

end
